theory Spec2Isabelle
  imports Complex_Main "HOL-Library.Multiset"
begin

section \<open>The CDC latency monitor (scripts/cdc-monitor.py)\<close>

text \<open>
  A shallow embedding of the latency-probing and lag-measurement engine of
  \<^verbatim>\<open>scripts/cdc-monitor.py\<close>.

  \<^item> Python exceptions are values of \<open>py_error\<close>; a call of a database operation
    yields \<open>Done v\<close> or \<open>Failed msg\<close> (the operation raised, \<open>str(e) = msg\<close>).
  \<^item> The databases, the clock and the process id are outside the program: every
    function takes the answers of the outside world as an explicit argument (an
    environment record) and returns, beside its result, the sequence of calls it made
    to the outside world (a list of events).
  \<^item> Latencies are Python floats; they are modelled as exact reals. The one place
    where float rounding decides a result, \<^verbatim>\<open>int(len(sorted_lat) * 0.95)\<close>, is modelled
    bit-exactly.
  \<^item> \<^verbatim>\<open>threading.Lock\<close> is modelled by the events \<open>LockAcquire\<close> and
    \<open>LockRelease\<close> in the event sequence of one thread.
  \<^item> Time is counted in whole milliseconds. The retries inside
    \<^verbatim>\<open>get_mysql_connection\<close> and \<^verbatim>\<open>get_starrocks_connection\<close> are part of the outside
    world: a connection attempt either yields a connection or raises.
  \<^item> The fields \<^verbatim>\<open>start_time\<close> and \<^verbatim>\<open>last_update\<close> of \<^verbatim>\<open>MonitorState\<close> are left out:
    no function modelled here reads or writes them.
\<close>

subsection \<open>Errors\<close>

datatype py_error = ZeroDivisionError | ValueError | IndexError | KeyError string

datatype 'a db = Done 'a | Failed string

subsection \<open>Checked primitives of Python\<close>

definition py_truediv :: "real \<Rightarrow> nat \<Rightarrow> py_error + real" where
  "py_truediv a n = (if n = 0 then Inl ZeroDivisionError else Inr (a / real n))"

fun py_min :: "real list \<Rightarrow> py_error + real" where
  "py_min [] = Inl ValueError"
| "py_min (x # xs) = Inr (fold min xs x)"

fun py_max :: "real list \<Rightarrow> py_error + real" where
  "py_max [] = Inl ValueError"
| "py_max (x # xs) = Inr (fold max xs x)"

definition py_index :: "'a list \<Rightarrow> nat \<Rightarrow> py_error + 'a" where
  "py_index xs i = (if i < length xs then Inr (xs ! i) else Inl IndexError)"

text \<open>
  \<^verbatim>\<open>collections.deque(maxlen=n).append(x)\<close>: the item is appended on the right and,
  if the deque is then longer than \<open>maxlen\<close>, one item is dropped on the left.
  A deque is the list of its items, oldest first.
\<close>

definition deque_append :: "nat \<Rightarrow> 'a list \<Rightarrow> 'a \<Rightarrow> 'a list" where
  "deque_append maxlen d x = (let d' = d @ [x] in if maxlen < length d' then tl d' else d')"

subsection \<open>The float product \<^verbatim>\<open>len * 0.95\<close>\<close>

text \<open>
  The double nearest to 0.95 is \<open>double_0_95 / 2 ^ 53\<close>. For a length \<open>n < 2 ^ 53\<close>
  the float \<open>float(n)\<close> is exact, the exact product is \<open>n * double_0_95 / 2 ^ 53\<close>, and
  the float product is that number rounded to 53 significant bits, ties to even;
  \<^verbatim>\<open>int()\<close> then truncates. All numbers below are in units of \<open>2 ^ - 53\<close>:
  \<open>round_at e p\<close> rounds \<open>p\<close> to a multiple of \<open>2 ^ e\<close>, and \<open>bitlen p - 53\<close> is the
  number of bits that \<open>p\<close> has beyond 53.
\<close>

definition double_0_95 :: nat where
  "double_0_95 = 8556839292003942"

fun bitlen :: "nat \<Rightarrow> nat" where
  "bitlen n = (if n = 0 then 0 else bitlen (n div 2) + 1)"

declare bitlen.simps [simp del]

definition round_at :: "nat \<Rightarrow> nat \<Rightarrow> nat" where
  "round_at e p =
     (let q = p div 2 ^ e;
          r = p mod 2 ^ e
      in (if 2 ^ e < 2 * r \<or> (2 * r = 2 ^ e \<and> odd q) then q + 1 else q) * 2 ^ e)"

definition round_to_53_bits :: "nat \<Rightarrow> nat" where
  "round_to_53_bits p = round_at (bitlen p - 53) p"

definition int_len_times_0_95 :: "nat \<Rightarrow> nat" where
  "int_len_times_0_95 n = round_to_53_bits (n * double_0_95) div 2 ^ 53"

subsection \<open>TableStats\<close>

record TableStats =
  mysql_count :: int
  starrocks_count :: int
  lag :: int
  last_latency_ms :: real
  latency_history :: "real list"

definition history_maxlen :: nat where
  "history_maxlen = 100"

definition TableStats_init :: TableStats where
  "TableStats_init =
     \<lparr>mysql_count = 0, starrocks_count = 0, lag = 0, last_latency_ms = 0,
      latency_history = []\<rparr>"

text \<open>
  The four statistics methods. A method receives \<open>self\<close> and returns its result
  together with \<open>self\<close> as the method leaves it; the result is \<open>Inl\<close> of the exception
  where the Python would raise.
\<close>

definition avg_latency :: "TableStats \<Rightarrow> (py_error + real) \<times> TableStats" where
  "avg_latency self =
     (if latency_history self = [] then (Inr 0, self)
      else (py_truediv (sum_list (latency_history self)) (length (latency_history self)),
            self))"

definition min_latency :: "TableStats \<Rightarrow> (py_error + real) \<times> TableStats" where
  "min_latency self =
     (if latency_history self = [] then (Inr 0, self)
      else (py_min (latency_history self), self))"

definition max_latency :: "TableStats \<Rightarrow> (py_error + real) \<times> TableStats" where
  "max_latency self =
     (if latency_history self = [] then (Inr 0, self)
      else (py_max (latency_history self), self))"

definition p95_latency :: "TableStats \<Rightarrow> (py_error + real) \<times> TableStats" where
  "p95_latency self =
     (if latency_history self = [] then (Inr 0, self)
      else (let sorted_lat = sort (latency_history self);
                idx = int_len_times_0_95 (length sorted_lat)
            in (py_index sorted_lat (min idx (length sorted_lat - 1)), self)))"

subsection \<open>MonitorState\<close>

definition TABLES :: "string list" where
  "TABLES = [''orders'', ''customers'', ''products'', ''order_items'',
             ''inventory_movements'']"

record MonitorState =
  running :: bool
  tables :: "string \<rightharpoonup> TableStats"
  total_probes :: int
  successful_probes :: int
  failed_probes :: int
  error_message :: string

definition MonitorState_init :: MonitorState where
  "MonitorState_init =
     \<lparr>running = True, tables = map_of (map (\<lambda>t. (t, TableStats_init)) TABLES),
      total_probes = 0, successful_probes = 0, failed_probes = 0, error_message = []\<rparr>"

text \<open>
  The block of \<^verbatim>\<open>latency_probe_thread\<close> that records one probe result under the
  lock (\<open>latency = None\<close> is a failed probe). A table missing from \<open>state.tables\<close>
  raises \<open>KeyError\<close> after the counters have been incremented.
\<close>

definition record_sample ::
  "MonitorState \<Rightarrow> string \<Rightarrow> real option \<Rightarrow> py_error option \<times> MonitorState" where
  "record_sample state table latency =
     (let s1 = state\<lparr>total_probes := total_probes state + 1\<rparr> in
      case latency of
        Some l \<Rightarrow>
          (let s2 = s1\<lparr>successful_probes := successful_probes s1 + 1\<rparr> in
           case tables s2 table of
             None \<Rightarrow> (Some (KeyError table), s2)
           | Some ts \<Rightarrow>
               (None, s2\<lparr>tables := (tables s2)(table \<mapsto>
                  ts\<lparr>last_latency_ms := l,
                     latency_history := deque_append history_maxlen (latency_history ts) l\<rparr>)\<rparr>))
      | None \<Rightarrow>
          (let s2 = s1\<lparr>failed_probes := failed_probes s1 + 1\<rparr> in
           case tables s2 table of
             None \<Rightarrow> (Some (KeyError table), s2)
           | Some ts \<Rightarrow>
               (None, s2\<lparr>tables := (tables s2)(table \<mapsto> ts\<lparr>last_latency_ms := - 1\<rparr>)\<rparr>)))"

text \<open>
  A sequence of recordings, as successive iterations of the probe thread make them;
  an exception ends the thread, so the sequence stops at the first one.
\<close>

fun record_samples ::
  "MonitorState \<Rightarrow> (string \<times> real option) list \<Rightarrow> py_error option \<times> MonitorState" where
  "record_samples state [] = (None, state)"
| "record_samples state ((table, latency) # rs) =
     (case record_sample state table latency of
        (Some e, s') \<Rightarrow> (Some e, s')
      | (None, s') \<Rightarrow> record_samples s' rs)"



subsection \<open>Calls to the outside world\<close>

datatype store = MySQL | StarRocks

text \<open>
  A statement is kept as its table and the columns that carry the marker:
  \<open>Insert t cols\<close> is the probe's \<^verbatim>\<open>INSERT INTO t\<close> with the marker-derived values \<open>cols\<close>,
  \<open>SelectCount t c v\<close> is \<^verbatim>\<open>SELECT COUNT(*) FROM t WHERE c = v\<close>,
  \<open>Delete t c v\<close> is \<^verbatim>\<open>DELETE FROM t WHERE c = v\<close> and
  \<open>CountAll t\<close> is \<^verbatim>\<open>SELECT COUNT(*) FROM t\<close>.
\<close>

datatype stmt =
    Insert string "(string \<times> string) list"
  | SelectCount string string string
  | Delete string string string
  | CountAll string

text \<open>
  \<open>Connect\<close> is \<^verbatim>\<open>get_mysql_connection()\<close> or \<^verbatim>\<open>get_starrocks_connection()\<close> (with its
  retries), \<open>Fetch\<close> is \<^verbatim>\<open>fetchone()\<close>, \<open>Close\<close> closes cursor and connection, \<open>Sleep\<close> is
  \<^verbatim>\<open>time.sleep\<close> with the time in milliseconds. \<^verbatim>\<open>cursor()\<close> and \<^verbatim>\<open>close()\<close> are
  taken not to raise.
\<close>

datatype event =
    Connect store
  | Execute store stmt
  | Fetch store
  | Commit store
  | Close store
  | Sleep nat
  | LockAcquire
  | LockRelease

subsection \<open>The probe\<close>

text \<open>
  The outside world of one probe: the marker string (built from the clock and the
  process id), the outcome of each database call in the order the probe makes them,
  and the time the calls take. \<open>t_setup\<close> is the time in milliseconds from
  \<^verbatim>\<open>insert_time\<close> to the first test of the polling loop, \<open>t_query k\<close> the time from the
  \<open>k\<close>-th test of the loop to the moment its query has answered.
\<close>

record probe_env =
  marker :: string
  mysql_connect :: "unit db"
  insert_execute :: "unit db"
  mysql_commit :: "unit db"
  sr_connect :: "unit db"
  t_setup :: nat
  sr_execute :: "nat \<Rightarrow> unit db"
  sr_fetch :: "nat \<Rightarrow> int db"
  t_query :: "nat \<Rightarrow> nat"
  cleanup_connect :: "unit db"
  delete_execute :: "unit db"
  cleanup_commit :: "unit db"

text \<open>The three \<^verbatim>\<open>if table == ... elif ...\<close> chains; \<open>None\<close> where no branch is taken.\<close>

definition probe_insert :: "string \<Rightarrow> string \<Rightarrow> stmt option" where
  "probe_insert table m =
     (if table = ''orders'' then Some (Insert ''orders'' [(''shipping_address'', m)])
      else if table = ''customers'' then
        Some (Insert ''customers''
               [(''last_name'', m), (''email'', ''probe_'' @ m @ ''@monitor.local'')])
      else if table = ''products'' then Some (Insert ''products'' [(''sku'', ''PROBE_'' @ m)])
      else if table = ''inventory_movements'' then
        Some (Insert ''inventory_movements'' [(''notes'', m)])
      else None)"

definition probe_select :: "string \<Rightarrow> string \<Rightarrow> stmt option" where
  "probe_select table m =
     (if table = ''orders'' then Some (SelectCount ''orders'' ''shipping_address'' m)
      else if table = ''customers'' then
        Some (SelectCount ''customers'' ''email'' (''probe_'' @ m @ ''@monitor.local''))
      else if table = ''products'' then Some (SelectCount ''products'' ''sku'' (''PROBE_'' @ m))
      else if table = ''inventory_movements'' then
        Some (SelectCount ''inventory_movements'' ''notes'' m)
      else None)"

definition probe_delete :: "string \<Rightarrow> string \<Rightarrow> stmt option" where
  "probe_delete table m =
     (if table = ''orders'' then Some (Delete ''orders'' ''shipping_address'' m)
      else if table = ''customers'' then
        Some (Delete ''customers'' ''email'' (''probe_'' @ m @ ''@monitor.local''))
      else if table = ''products'' then Some (Delete ''products'' ''sku'' (''PROBE_'' @ m))
      else if table = ''inventory_movements'' then
        Some (Delete ''inventory_movements'' ''notes'' m)
      else None)"

text \<open>
  \<^verbatim>\<open>cleanup_probe\<close>: every exception is caught and dropped, so the function returns
  nothing but the calls it made.
\<close>

definition cleanup_probe :: "probe_env \<Rightarrow> string \<Rightarrow> string \<Rightarrow> event list" where
  "cleanup_probe env table m =
     (case cleanup_connect env of
        Failed e \<Rightarrow> [Connect MySQL]
      | Done u \<Rightarrow>
          (let finish = (case cleanup_commit env of
                           Failed e \<Rightarrow> [Commit MySQL]
                         | Done u \<Rightarrow> [Commit MySQL, Close MySQL])
           in case probe_delete table m of
                None \<Rightarrow> [Connect MySQL] @ finish
              | Some q \<Rightarrow>
                  (case delete_execute env of
                     Failed e \<Rightarrow> [Connect MySQL, Execute MySQL q]
                   | Done u \<Rightarrow> [Connect MySQL, Execute MySQL q] @ finish)))"

text \<open>
  The local constants \<^verbatim>\<open>timeout = 30\<close> and \<^verbatim>\<open>poll_interval = 0.1\<close> (seconds), in
  milliseconds.
\<close>

definition timeout :: nat where
  "timeout = 30000"

definition poll_interval :: nat where
  "poll_interval = 100"

text \<open>
  The body of the \<^verbatim>\<open>try\<close> of one polling iteration up to \<^verbatim>\<open>count\<close>. A table without
  a branch executes nothing, and \<^verbatim>\<open>fetchone()\<close> on a cursor that has executed nothing
  has no result set: the line \<^verbatim>\<open>count = sr_cursor.fetchone()[0]\<close> raises.
\<close>

definition poll_once :: "probe_env \<Rightarrow> string \<Rightarrow> string \<Rightarrow> nat \<Rightarrow> int db \<times> event list" where
  "poll_once env table m k =
     (case probe_select table m of
        None \<Rightarrow> (Failed ''No result set to fetch from'', [Fetch StarRocks])
      | Some q \<Rightarrow>
          (case sr_execute env k of
             Failed e \<Rightarrow> (Failed e, [Execute StarRocks q])
           | Done u \<Rightarrow> (sr_fetch env k, [Execute StarRocks q, Fetch StarRocks])))"

definition found :: "int db \<Rightarrow> bool" where
  "found r = (case r of Done c \<Rightarrow> 0 < c | Failed e \<Rightarrow> False)"

text \<open>
  The polling loop, from its \<open>k\<close>-th test at \<open>elapsed\<close> milliseconds after
  \<^verbatim>\<open>insert_time\<close>. It returns the latency (\<open>None\<close> when the loop ran out), the time at
  which the loop was left, and the calls made.
\<close>

function poll_loop ::
  "probe_env \<Rightarrow> string \<Rightarrow> string \<Rightarrow> nat \<Rightarrow> nat \<Rightarrow> nat option \<times> nat \<times> event list" where
  "poll_loop env table m k elapsed =
     (if elapsed < timeout then
        (let (r, calls) = poll_once env table m k;
             now = elapsed + t_query env k
         in if found r then (Some now, now, calls)
            else (let (latency, t_end, rest) = poll_loop env table m (Suc k) (now + poll_interval)
                  in (latency, t_end, calls @ [Sleep poll_interval] @ rest)))
      else (None, elapsed, []))"
  by pat_completeness auto
termination
  by (relation "measure (\<lambda>(env, table, m, k, elapsed). timeout - elapsed)")
     (auto simp: poll_interval_def)

declare poll_loop.simps [simp del]

definition insert_step :: "probe_env \<Rightarrow> string \<Rightarrow> string \<Rightarrow> unit db \<times> event list" where
  "insert_step env table m =
     (case probe_insert table m of
        None \<Rightarrow> (Done (), [])
      | Some q \<Rightarrow> (insert_execute env, [Execute MySQL q]))"

text \<open>The outer \<^verbatim>\<open>except\<close> of \<^verbatim>\<open>probe_latency\<close>.\<close>

definition probe_fail ::
  "MonitorState \<Rightarrow> string \<Rightarrow> event list \<Rightarrow> real option \<times> MonitorState \<times> event list" where
  "probe_fail state e calls =
     (None, state\<lparr>error_message := e\<rparr>, calls @ [LockAcquire, LockRelease])"

definition probe_latency ::
  "probe_env \<Rightarrow> MonitorState \<Rightarrow> string \<Rightarrow> real option \<times> MonitorState \<times> event list" where
  "probe_latency env state table =
     (let m = marker env in
      case mysql_connect env of
        Failed e \<Rightarrow> probe_fail state e [Connect MySQL]
      | Done u \<Rightarrow>
     (case insert_step env table m of
        (Failed e, ins) \<Rightarrow> probe_fail state e ([Connect MySQL] @ ins)
      | (Done u, ins) \<Rightarrow>
     (case mysql_commit env of
        Failed e \<Rightarrow> probe_fail state e ([Connect MySQL] @ ins @ [Commit MySQL])
      | Done u \<Rightarrow>
     (case sr_connect env of
        Failed e \<Rightarrow>
          probe_fail state e
            ([Connect MySQL] @ ins @ [Commit MySQL, Close MySQL, Connect StarRocks])
      | Done u \<Rightarrow>
          (let (latency, t_end, polls) = poll_loop env table m 0 (t_setup env)
           in (map_option real latency, state,
               [Connect MySQL] @ ins @ [Commit MySQL, Close MySQL, Connect StarRocks]
               @ polls @ [Close StarRocks] @ cleanup_probe env table m))))))"

text \<open>The time at which the \<open>k\<close>-th test of the polling loop is made when no earlier poll
  has found the marker.\<close>

fun poll_time :: "probe_env \<Rightarrow> nat \<Rightarrow> nat" where
  "poll_time env 0 = t_setup env"
| "poll_time env (Suc k) = poll_time env k + t_query env k + poll_interval"

subsection \<open>The count reconciler\<close>

text \<open>
  The outside world of one pass of \<^verbatim>\<open>get_table_counts\<close>: the two connections and, for
  each table, the outcome of the count query on each store (\<^verbatim>\<open>execute\<close> followed by
  \<^verbatim>\<open>fetchone()[0]\<close>; \<open>Failed\<close> when either raised).
\<close>

record count_env =
  c_mysql_connect :: "unit db"
  c_sr_connect :: "unit db"
  mysql_count_query :: "string \<Rightarrow> int db"
  sr_count_query :: "string \<Rightarrow> int db"

text \<open>
  The body of the \<^verbatim>\<open>for\<close> loop for one table. Each assignment writes into the state at
  once; the \<^verbatim>\<open>except Exception: pass\<close> keeps what has been written before the exception.
\<close>

definition count_table :: "count_env \<Rightarrow> MonitorState \<Rightarrow> string \<Rightarrow> MonitorState \<times> event list" where
  "count_table env state table =
     (case mysql_count_query env table of
        Failed e \<Rightarrow> (state, [Execute MySQL (CountAll table)])
      | Done c \<Rightarrow>
     (case tables state table of
        None \<Rightarrow> (state, [Execute MySQL (CountAll table)])
      | Some ts \<Rightarrow>
          (let ts1 = ts\<lparr>mysql_count := c\<rparr>;
               s1 = state\<lparr>tables := (tables state)(table \<mapsto> ts1)\<rparr>
           in case sr_count_query env table of
                Failed e \<Rightarrow>
                  (s1, [Execute MySQL (CountAll table), Execute StarRocks (CountAll table)])
              | Done c' \<Rightarrow>
                  (let ts2 = ts1\<lparr>starrocks_count := c'\<rparr>;
                       ts3 = ts2\<lparr>lag := mysql_count ts2 - starrocks_count ts2\<rparr>
                   in (s1\<lparr>tables := (tables s1)(table \<mapsto> ts3)\<rparr>,
                       [Execute MySQL (CountAll table),
                        Execute StarRocks (CountAll table)])))))"

fun count_tables ::
  "count_env \<Rightarrow> MonitorState \<Rightarrow> string list \<Rightarrow> MonitorState \<times> event list" where
  "count_tables env state [] = (state, [])"
| "count_tables env state (t # ts) =
     (let (s1, calls1) = count_table env state t;
          (s2, calls2) = count_tables env s1 ts
      in (s2, calls1 @ calls2))"

definition get_table_counts :: "count_env \<Rightarrow> MonitorState \<Rightarrow> MonitorState \<times> event list" where
  "get_table_counts env state =
     (case c_mysql_connect env of
        Failed e \<Rightarrow>
          (state\<lparr>error_message := e\<rparr>, [Connect MySQL, LockAcquire, LockRelease])
      | Done u \<Rightarrow>
     (case c_sr_connect env of
        Failed e \<Rightarrow>
          (state\<lparr>error_message := e\<rparr>,
           [Connect MySQL, Connect StarRocks, LockAcquire, LockRelease])
      | Done u \<Rightarrow>
          (let (s', calls) = count_tables env state TABLES
           in (s', [Connect MySQL, Connect StarRocks, LockAcquire] @ calls
                   @ [LockRelease, Close MySQL, Close StarRocks]))))"

subsection \<open>The probe thread\<close>

text \<open>
  The outside world of one iteration of \<^verbatim>\<open>latency_probe_thread\<close>: the world of its
  probe, and whether the signal handler sets \<^verbatim>\<open>state.running = False\<close> during the
  iteration. The list of worlds bounds the number of iterations modelled: the thread
  ends \<open>Stopped\<close> when it reads \<open>running = False\<close>, \<open>Raised e\<close> when an exception leaves
  the loop, and \<open>Unfinished\<close> when the list is used up with the loop still running.
  The thread returns the log of its iterations: the table probed and the calls made.
  \<open>interval\<close> is in milliseconds.
\<close>

record iteration_world =
  probe_world :: probe_env
  stop_signal :: bool

datatype thread_end = Stopped | Raised py_error | Unfinished

fun probe_loop ::
  "MonitorState \<Rightarrow> nat \<Rightarrow> string list \<Rightarrow> iteration_world list \<Rightarrow> nat \<Rightarrow>
   thread_end \<times> MonitorState \<times> (string \<times> event list) list" where
  "probe_loop state interval tabs [] table_idx =
     (if \<not> running state then (Stopped, state, []) else (Unfinished, state, []))"
| "probe_loop state interval tabs (w # ws) table_idx =
     (if \<not> running state then (Stopped, state, [])
      else if tabs = [] then (Raised ZeroDivisionError, state, [])
      else
        (let table = tabs ! (table_idx mod length tabs);
             (latency, s1, calls) = probe_latency (probe_world w) state table;
             (exc, s2) = record_sample s1 table latency
         in case exc of
              Some e \<Rightarrow> (Raised e, s2, [(table, calls @ [LockAcquire, LockRelease])])
            | None \<Rightarrow>
                (let s3 = (if stop_signal w then s2\<lparr>running := False\<rparr> else s2);
                     (fin, s4, log) = probe_loop s3 interval tabs ws (table_idx + 1)
                 in (fin, s4,
                     (table, calls @ [LockAcquire, LockRelease, Sleep interval]) # log))))"

definition latency_probe_thread ::
  "MonitorState \<Rightarrow> nat \<Rightarrow> string list \<Rightarrow> iteration_world list \<Rightarrow>
   thread_end \<times> MonitorState \<times> (string \<times> event list) list" where
  "latency_probe_thread state interval tabs worlds = probe_loop state interval tabs worlds 0"

subsection \<open>The lock\<close>

fun is_network :: "event \<Rightarrow> bool" where
  "is_network (Sleep n) = False"
| "is_network LockAcquire = False"
| "is_network LockRelease = False"
| "is_network e = True"

text \<open>\<open>network_under_lock held calls\<close>: some database call of \<open>calls\<close> is made while the
  lock is held, \<open>held\<close> telling whether it is held at the start.\<close>

fun network_under_lock :: "bool \<Rightarrow> event list \<Rightarrow> bool" where
  "network_under_lock held [] = False"
| "network_under_lock held (LockAcquire # es) = network_under_lock True es"
| "network_under_lock held (LockRelease # es) = network_under_lock False es"
| "network_under_lock held (e # es) = ((held \<and> is_network e) \<or> network_under_lock held es)"

subsection \<open>Notions used in the properties\<close>

text \<open>A call that executes a \<^verbatim>\<open>DELETE\<close>.\<close>

fun is_delete :: "event \<Rightarrow> bool" where
  "is_delete (Execute s (Delete t c v)) = True"
| "is_delete e = False"

text \<open>The world in which every sink query of the polling loop that raised answers
  ``count 0'' instead, and everything else is the same.\<close>

definition without_query_errors :: "probe_env \<Rightarrow> probe_env" where
  "without_query_errors env =
     env\<lparr>sr_execute := (\<lambda>k. Done ()),
         sr_fetch := (\<lambda>k. case sr_execute env k of
                              Failed e \<Rightarrow> Done 0
                            | Done u \<Rightarrow> (case sr_fetch env k of
                                           Failed e \<Rightarrow> Done 0
                                         | Done c \<Rightarrow> Done c))\<rparr>"

subsection \<open>Example worlds\<close>

text \<open>
  A reconciliation pass in which both connections succeed, the source count of
  \<open>orders\<close> fails, the sink count of \<open>customers\<close> fails, and every other count
  answers 1000 on the source and 980 on the sink.
\<close>

definition flaky_counts :: count_env where
  "flaky_counts =
     \<lparr>c_mysql_connect = Done (), c_sr_connect = Done (),
      mysql_count_query = (\<lambda>t. if t = ''orders'' then Failed ''gone away'' else Done 1000),
      sr_count_query = (\<lambda>t. if t = ''customers'' then Failed ''gone away'' else Done 980)\<rparr>"

text \<open>
  A probe in which every database call succeeds and the sink never shows the marker
  (every count is 0); \<open>t0\<close> is the time from \<^verbatim>\<open>insert_time\<close> to the first test of the
  polling loop, and a query takes no time.
\<close>

definition quiet_sink :: "nat \<Rightarrow> probe_env" where
  "quiet_sink t0 =
     \<lparr>marker = ''probe_1700000000000_4242'',
      mysql_connect = Done (), insert_execute = Done (), mysql_commit = Done (),
      sr_connect = Done (), t_setup = t0,
      sr_execute = (\<lambda>k. Done ()), sr_fetch = (\<lambda>k. Done 0), t_query = (\<lambda>k. 0),
      cleanup_connect = Done (), delete_execute = Done (), cleanup_commit = Done ()\<rparr>"

text \<open>
  A probe in which the first sink query raises (a connection reset) and every later
  one finds the marker; every query takes 50 milliseconds.
\<close>

definition reset_once :: probe_env where
  "reset_once =
     (quiet_sink 0)
       \<lparr>sr_execute := (\<lambda>k. if k = 0 then Failed ''connection reset'' else Done ()),
        sr_fetch := (\<lambda>k. Done 1), t_query := (\<lambda>k. 50)\<rparr>"

text \<open>
  An iteration of the probe thread whose probe is made in the world \<open>quiet_sink 30000\<close>
  (the first test of the polling loop is already past the timeout) and during which no
  stop signal arrives.
\<close>

definition calm_iteration :: iteration_world where
  "calm_iteration = \<lparr>probe_world = quiet_sink 30000, stop_signal = False\<rparr>"

text \<open>
  A probe of a slow sink: the first test of the polling loop is made 29950 ms after
  \<^verbatim>\<open>insert_time\<close>, every query takes 2150 ms and finds the marker. The first answer of
  the sink arrives 32100 ms after \<^verbatim>\<open>insert_time\<close>.
\<close>

definition slow_sink :: probe_env where
  "slow_sink = (quiet_sink 29950)\<lparr>sr_fetch := (\<lambda>k. Done 1), t_query := (\<lambda>k. 2150)\<rparr>"

section \<open>Properties\<close>

subsection \<open>The percentile index\<close>

text \<open>
  For every length a \<^verbatim>\<open>deque(maxlen=100)\<close> can have, the float computation
  \<^verbatim>\<open>int(len * 0.95)\<close> gives the exact \<open>\<lfloor>len * 95 / 100\<rfloor>\<close>; this is checked length by
  length.
\<close>

lemma bitlen_0: "bitlen 0 = 0"
  by (simp add: bitlen.simps)

lemma bitlen_pos: "0 < n \<Longrightarrow> bitlen n = bitlen (n div 2) + 1"
  by (subst bitlen.simps) simp

lemmas idx_eval = int_len_times_0_95_def round_to_53_bits_def round_at_def double_0_95_def
  Let_def bitlen_0 bitlen_pos

lemma idx_chunk1: "list_all (\<lambda>n. int_len_times_0_95 n = n * 95 div 100)
     [0, 1, 2, 3, 4, 5, 6, 7, 8, 9, 10, 11, 12, 13, 14, 15, 16, 17, 18, 19,
      20, 21, 22, 23, 24, 25]"
  by (simp add: idx_eval)

lemma idx_chunk2: "list_all (\<lambda>n. int_len_times_0_95 n = n * 95 div 100)
     [26, 27, 28, 29, 30, 31, 32, 33, 34, 35, 36, 37, 38, 39, 40, 41, 42,
      43, 44, 45, 46, 47, 48, 49, 50]"
  by (simp add: idx_eval)

lemma idx_chunk3: "list_all (\<lambda>n. int_len_times_0_95 n = n * 95 div 100)
     [51, 52, 53, 54, 55, 56, 57, 58, 59, 60, 61, 62, 63, 64, 65, 66, 67,
      68, 69, 70, 71, 72, 73, 74, 75]"
  by (simp add: idx_eval)

lemma idx_chunk4: "list_all (\<lambda>n. int_len_times_0_95 n = n * 95 div 100)
     [76, 77, 78, 79, 80, 81, 82, 83, 84, 85, 86, 87, 88, 89, 90, 91, 92,
      93, 94, 95, 96, 97, 98, 99, 100]"
  by (simp add: idx_eval)

lemma upt_101: "[0..<101] =
     [0, 1, 2, 3, 4, 5, 6, 7, 8, 9, 10, 11, 12, 13, 14, 15, 16, 17, 18, 19,
      20, 21, 22, 23, 24, 25]
   @ [26, 27, 28, 29, 30, 31, 32, 33, 34, 35, 36, 37, 38, 39, 40, 41, 42,
      43, 44, 45, 46, 47, 48, 49, 50]
   @ [51, 52, 53, 54, 55, 56, 57, 58, 59, 60, 61, 62, 63, 64, 65, 66, 67,
      68, 69, 70, 71, 72, 73, 74, 75]
   @ [76, 77, 78, 79, 80, 81, 82, 83, 84, 85, 86, 87, 88, 89, 90, 91, 92,
      93, 94, 95, 96, 97, 98, 99, 100]"
  by (simp add: upt_rec)

lemma int_len_times_0_95_small:
  assumes "n \<le> 100"
  shows "int_len_times_0_95 n = n * 95 div 100"
proof -
  have "list_all (\<lambda>n. int_len_times_0_95 n = n * 95 div 100) [0..<101]"
    unfolding upt_101 list_all_append
    using idx_chunk1 idx_chunk2 idx_chunk3 idx_chunk4 by blast
  moreover have "n \<in> set [0..<101]" using assms by simp
  ultimately show ?thesis unfolding list_all_iff by blast
qed

subsection \<open>The ring buffer and the statistics methods\<close>






lemma py_min_Min:
  assumes "xs \<noteq> []"
  shows "py_min xs = Inr (Min (set xs))"
proof -
  from assms obtain a list where "xs = a # list" by (cases xs) auto
  then show ?thesis using Min.set_eq_fold [of a list] by simp
qed

lemma py_max_Max:
  assumes "xs \<noteq> []"
  shows "py_max xs = Inr (Max (set xs))"
proof -
  from assms obtain a list where "xs = a # list" by (cases xs) auto
  then show ?thesis using Max.set_eq_fold [of a list] by simp
qed

lemma avg_latency_eq:
  "latency_history ts \<noteq> [] \<Longrightarrow>
   fst (avg_latency ts) = Inr (sum_list (latency_history ts) / real (length (latency_history ts)))"
  by (simp add: avg_latency_def py_truediv_def)

lemma min_latency_eq:
  "latency_history ts \<noteq> [] \<Longrightarrow> fst (min_latency ts) = Inr (Min (set (latency_history ts)))"
  by (simp add: min_latency_def py_min_Min)

lemma max_latency_eq:
  "latency_history ts \<noteq> [] \<Longrightarrow> fst (max_latency ts) = Inr (Max (set (latency_history ts)))"
  by (simp add: max_latency_def py_max_Max)

lemma p95_latency_sorted:
  "latency_history ts \<noteq> [] \<Longrightarrow>
   fst (p95_latency ts) =
     Inr (sort (latency_history ts) !
            min (int_len_times_0_95 (length (latency_history ts))) (length (latency_history ts) - 1))"
  by (cases "latency_history ts") (auto simp: p95_latency_def py_index_def Let_def min_def)

lemma p95_latency_eq:
  "latency_history ts \<noteq> [] \<Longrightarrow> length (latency_history ts) \<le> 100 \<Longrightarrow>
   fst (p95_latency ts) =
     Inr (sort (latency_history ts) !
            min (length (latency_history ts) * 95 div 100) (length (latency_history ts) - 1))"
  by (simp add: p95_latency_sorted int_len_times_0_95_small)


lemma record_sample_Some:
  "tables s t = Some ts \<Longrightarrow>
   record_sample s t (Some l) =
     (None, s\<lparr>total_probes := total_probes s + 1,
               successful_probes := successful_probes s + 1,
               tables := (tables s)(t \<mapsto> ts\<lparr>last_latency_ms := l,
                 latency_history := deque_append history_maxlen (latency_history ts) l\<rparr>)\<rparr>)"
  by (simp add: record_sample_def Let_def)

lemma record_sample_None:
  "tables s t = Some ts \<Longrightarrow>
   record_sample s t None =
     (None, s\<lparr>total_probes := total_probes s + 1,
               failed_probes := failed_probes s + 1,
               tables := (tables s)(t \<mapsto> ts\<lparr>last_latency_ms := - 1\<rparr>)\<rparr>)"
  by (simp add: record_sample_def Let_def)

lemma record_sample_counters:
  "total_probes (snd (record_sample s t latency)) = total_probes s + 1 \<and>
   successful_probes (snd (record_sample s t latency)) + failed_probes (snd (record_sample s t latency))
     = successful_probes s + failed_probes s + 1"
  by (auto simp: record_sample_def Let_def split: option.splits)

lemma record_samples_counters:
  "total_probes s = successful_probes s + failed_probes s \<Longrightarrow>
   total_probes (snd (record_samples s rs)) =
     successful_probes (snd (record_samples s rs)) + failed_probes (snd (record_samples s rs))"
proof (induction rs arbitrary: s)
  case Nil
  then show ?case by simp
next
  case (Cons r rs)
  obtain t latency where r: "r = (t, latency)" by (cases r)
  obtain exc s1 where rs1: "record_sample s t latency = (exc, s1)" by (cases "record_sample s t latency")
  have inv: "total_probes s1 = successful_probes s1 + failed_probes s1"
    using record_sample_counters [of s t latency] Cons.prems rs1 by simp
  show ?case
  proof (cases exc)
    case None
    then show ?thesis using Cons.IH [OF inv] r rs1 by simp
  next
    case (Some e)
    then show ?thesis using inv r rs1 by simp
  qed
qed




text \<open>
  Claim C3, as amended. Recording a probe result for a monitored table raises nothing,
  increments \<open>total_probes\<close> and exactly one of \<open>successful_probes\<close> and
  \<open>failed_probes\<close>, and leaves every other table as it was. A successful probe sets
  \<open>last_latency_ms\<close> to the latency and appends it to the table's ring buffer
  (\<^verbatim>\<open>deque(maxlen=100)\<close>); a failed probe sets \<open>last_latency_ms\<close> to \<open>-1\<close> and leaves the
  ring buffer unchanged. So \<open>total_probes = successful_probes + failed_probes\<close> is kept
  by every recording, and holds after every sequence of recordings on the initial state.
\<close>

theorem record_sample_effect:
  assumes "tables s t = Some ts"
  shows "let s' = snd (record_sample s t latency) in
           fst (record_sample s t latency) = None
         \<and> total_probes s' = total_probes s + 1
         \<and> (case latency of
               Some l \<Rightarrow>
                 successful_probes s' = successful_probes s + 1
               \<and> failed_probes s' = failed_probes s
               \<and> tables s' t = Some (ts\<lparr>last_latency_ms := l,
                     latency_history := deque_append 100 (latency_history ts) l\<rparr>)
             | None \<Rightarrow>
                 failed_probes s' = failed_probes s + 1
               \<and> successful_probes s' = successful_probes s
               \<and> tables s' t = Some (ts\<lparr>last_latency_ms := - 1\<rparr>))
         \<and> (\<forall>t'. t' \<noteq> t \<longrightarrow> tables s' t' = tables s t')
         \<and> (total_probes s = successful_probes s + failed_probes s \<longrightarrow>
              total_probes s' = successful_probes s' + failed_probes s')
         \<and> (\<forall>rs. total_probes (snd (record_samples MonitorState_init rs)) =
                   successful_probes (snd (record_samples MonitorState_init rs))
                   + failed_probes (snd (record_samples MonitorState_init rs)))"
proof -
  have init: "total_probes MonitorState_init =
      successful_probes MonitorState_init + failed_probes MonitorState_init"
    by (simp add: MonitorState_init_def)
  have seq: "\<forall>rs. total_probes (snd (record_samples MonitorState_init rs)) =
                   successful_probes (snd (record_samples MonitorState_init rs))
                   + failed_probes (snd (record_samples MonitorState_init rs))"
    using record_samples_counters [OF init] by blast
  show ?thesis
  proof (cases latency)
    case None
    then show ?thesis using assms seq by (simp add: record_sample_None Let_def)
  next
    case (Some l)
    then show ?thesis using assms seq
      by (simp add: record_sample_Some Let_def history_maxlen_def)
  qed
qed

lemma tables_init_orders: "tables MonitorState_init ''orders'' = Some TableStats_init"
  by (simp add: MonitorState_init_def TABLES_def)

text \<open>
  The theorem at the initial state, a successful probe of \<open>orders\<close> with latency 12.
\<close>

theorem record_sample_effect_witness:
  "tables MonitorState_init ''orders'' = Some TableStats_init
   \<and> total_probes (snd (record_sample MonitorState_init ''orders'' (Some 12))) = 1
   \<and> successful_probes (snd (record_sample MonitorState_init ''orders'' (Some 12))) = 1
   \<and> failed_probes (snd (record_sample MonitorState_init ''orders'' (Some 12))) = 0
   \<and> tables (snd (record_sample MonitorState_init ''orders'' (Some 12))) ''orders'' =
       Some (TableStats_init\<lparr>last_latency_ms := 12, latency_history := [12]\<rparr>)"
proof -
  have c: "total_probes MonitorState_init = 0" "successful_probes MonitorState_init = 0"
    "failed_probes MonitorState_init = 0"
    by (simp_all add: MonitorState_init_def)
  have d: "deque_append 100 (latency_history TableStats_init) 12 = [12]"
    by (simp add: deque_append_def TableStats_init_def)
  show ?thesis
    using record_sample_effect [OF tables_init_orders, of "Some 12"]
    by (simp add: Let_def tables_init_orders c d)
qed

text \<open>
  Claim C3 as stated fails: recording a failed probe of \<open>orders\<close> on the initial state
  sets \<open>last_latency_ms\<close> to \<open>-1\<close> and appends nothing; the ring buffer is still empty.
\<close>

theorem failed_probe_not_appended:
  "tables MonitorState_init ''orders'' = Some TableStats_init
   \<and> latency_history TableStats_init = []
   \<and> tables (snd (record_sample MonitorState_init ''orders'' None)) ''orders'' =
       Some (TableStats_init\<lparr>last_latency_ms := - 1\<rparr>)
   \<and> latency_history (TableStats_init\<lparr>last_latency_ms := - 1\<rparr>) = []"
  by (simp add: record_sample_None tables_init_orders) (simp add: TableStats_init_def)






text \<open>
  Claim C5. For a non-empty ring buffer of length \<open>len\<close> (at most 100, the capacity),
  \<open>p95_latency\<close> returns the element of the ascending-sorted buffer at index
  \<open>\<lfloor>len * 95 / 100\<rfloor>\<close> clamped to \<open>len - 1\<close>; for a buffer that holds the values
  \<open>1..100\<close> in any order it returns 96, the 96th smallest value.
\<close>

theorem p95_latency_index:
  assumes "latency_history ts \<noteq> []" and "length (latency_history ts) \<le> 100"
  shows "fst (p95_latency ts) =
           Inr (sort (latency_history ts) !
                  min (length (latency_history ts) * 95 div 100)
                      (length (latency_history ts) - 1))
         \<and> (mset (latency_history ts) = mset (map real [1..<101]) \<longrightarrow>
              fst (p95_latency ts) = Inr 96)"
proof -
  have first: "fst (p95_latency ts) =
           Inr (sort (latency_history ts) !
                  min (length (latency_history ts) * 95 div 100)
                      (length (latency_history ts) - 1))"
    using assms by (rule p95_latency_eq)
  have second: "fst (p95_latency ts) = Inr 96"
    if m: "mset (latency_history ts) = mset (map real [1..<101])"
  proof -
    have srt: "sorted (map real [1..<101])"
      by (simp add: sorted_wrt_map)
    have eq: "sort (latency_history ts) = map real [1..<101]"
      using m srt by (simp add: properties_for_sort)
    have len: "length (latency_history ts) = 100"
      using m by (metis length_map length_upt mset_eq_length diff_add_inverse numeral_plus_one
          semiring_norm(5) semiring_norm(8) add.commute)
    have "map real [1..<101] ! 95 = 96" by simp
    then show ?thesis unfolding first eq len by simp
  qed
  show ?thesis using first second by blast
qed


text \<open>
  The theorem at the buffer \<open>100, 99, ..., 1\<close>.
\<close>

theorem p95_latency_index_witness:
  "latency_history (TableStats_init\<lparr>latency_history := rev (map real [1..<101])\<rparr>) \<noteq> []
   \<and> length (latency_history (TableStats_init\<lparr>latency_history := rev (map real [1..<101])\<rparr>))
        \<le> 100
   \<and> mset (latency_history (TableStats_init\<lparr>latency_history := rev (map real [1..<101])\<rparr>))
        = mset (map real [1..<101])
   \<and> fst (p95_latency (TableStats_init\<lparr>latency_history := rev (map real [1..<101])\<rparr>))
        = Inr 96"
proof -
  let ?ts = "TableStats_init\<lparr>latency_history := rev (map real [1..<101])\<rparr>"
  have h1: "latency_history ?ts \<noteq> []" by simp
  have h2: "length (latency_history ?ts) \<le> 100" by simp
  have h3: "mset (latency_history ?ts) = mset (map real [1..<101])" by simp
  show ?thesis using p95_latency_index [OF h1 h2] h1 h2 h3 by blast
qed

text \<open>
  Claim C6. For an empty ring buffer each of \<open>avg_latency\<close>, \<open>min_latency\<close>,
  \<open>max_latency\<close> and \<open>p95_latency\<close> returns 0; for every buffer each of them returns a
  number (no exception: no division by zero, no \<open>min\<close> or \<open>max\<close> of an empty sequence,
  no index out of range) and leaves the \<open>TableStats\<close>, the buffer included, as it was.
\<close>

theorem stats_empty_zero_and_pure:
  "(latency_history ts = [] \<longrightarrow>
      fst (avg_latency ts) = Inr 0 \<and> fst (min_latency ts) = Inr 0
    \<and> fst (max_latency ts) = Inr 0 \<and> fst (p95_latency ts) = Inr 0)
   \<and> snd (avg_latency ts) = ts \<and> snd (min_latency ts) = ts
   \<and> snd (max_latency ts) = ts \<and> snd (p95_latency ts) = ts
   \<and> (\<exists>a b c d. fst (avg_latency ts) = Inr a \<and> fst (min_latency ts) = Inr b
         \<and> fst (max_latency ts) = Inr c \<and> fst (p95_latency ts) = Inr d)"
proof -
  have pure: "snd (avg_latency ts) = ts \<and> snd (min_latency ts) = ts
      \<and> snd (max_latency ts) = ts \<and> snd (p95_latency ts) = ts"
    by (simp add: avg_latency_def min_latency_def max_latency_def p95_latency_def Let_def)
  show ?thesis
  proof (cases "latency_history ts = []")
    case True
    then show ?thesis using pure
      by (simp add: avg_latency_def min_latency_def max_latency_def p95_latency_def)
  next
    case False
    then show ?thesis
      using pure avg_latency_eq [OF False] min_latency_eq [OF False] max_latency_eq [OF False]
        p95_latency_sorted [OF False]
      by simp
  qed
qed

text \<open>
  The theorem at the initial \<open>TableStats\<close>, whose buffer is empty.
\<close>

theorem stats_empty_zero_and_pure_witness:
  "latency_history TableStats_init = []
   \<and> avg_latency TableStats_init = (Inr 0, TableStats_init)
   \<and> min_latency TableStats_init = (Inr 0, TableStats_init)
   \<and> max_latency TableStats_init = (Inr 0, TableStats_init)
   \<and> p95_latency TableStats_init = (Inr 0, TableStats_init)"
proof -
  have e: "latency_history TableStats_init = []" by (simp add: TableStats_init_def)
  show ?thesis
    using stats_empty_zero_and_pure [of TableStats_init] e
    by (simp add: prod_eq_iff)
qed

subsection \<open>One pass of the count reconciler\<close>

lemma count_table_other:
  "t' \<noteq> t \<Longrightarrow> tables (fst (count_table env s t)) t' = tables s t'"
  by (auto simp: count_table_def Let_def split: db.splits option.splits)

lemma count_table_self:
  "tables s t = Some ts \<Longrightarrow>
   tables (fst (count_table env s t)) t =
     Some (case mysql_count_query env t of
             Failed e \<Rightarrow> ts
           | Done c \<Rightarrow>
               (case sr_count_query env t of
                  Failed e \<Rightarrow> ts\<lparr>mysql_count := c\<rparr>
                | Done c' \<Rightarrow> ts\<lparr>mysql_count := c, starrocks_count := c', lag := c - c'\<rparr>))"
  by (auto simp: count_table_def Let_def split: db.splits option.splits)

lemma count_table_calls:
  "Execute MySQL (CountAll t) \<in> set (snd (count_table env s t))"
  by (auto simp: count_table_def Let_def split: db.splits option.splits)

lemma count_tables_notin:
  "t \<notin> set list \<Longrightarrow> tables (fst (count_tables env s list)) t = tables s t"
proof (induction list arbitrary: s)
  case Nil
  then show ?case by simp
next
  case (Cons x xs)
  then have "x \<noteq> t" "t \<notin> set xs" by auto
  then show ?case
    using Cons.IH [of "fst (count_table env s x)"] count_table_other [of t x env s]
    by (simp add: case_prod_unfold Let_def)
qed

lemma count_tables_in:
  "distinct list \<Longrightarrow> t \<in> set list \<Longrightarrow> tables s t = Some ts \<Longrightarrow>
   tables (fst (count_tables env s list)) t = tables (fst (count_table env s t)) t"
proof (induction list arbitrary: s)
  case Nil
  then show ?case by simp
next
  case (Cons x xs)
  show ?case
  proof (cases "x = t")
    case True
    then have "t \<notin> set xs" using Cons.prems(1) by auto
    then show ?thesis
      using count_tables_notin [of t xs env "fst (count_table env s t)"] True
      by (simp add: case_prod_unfold Let_def)
  next
    case False
    then have tin: "t \<in> set xs" using Cons.prems(2) by auto
    have same: "tables (fst (count_table env s x)) t = Some ts"
      using count_table_other [of t x env s] False Cons.prems(3) by simp
    have d: "distinct xs" using Cons.prems(1) by simp
    have "tables (fst (count_table env (fst (count_table env s x)) t)) t
          = tables (fst (count_table env s t)) t"
      using count_table_self [OF same, of env] count_table_self [OF Cons.prems(3), of env]
      by simp
    then show ?thesis
      using Cons.IH [OF d tin same]
      by (simp add: case_prod_unfold Let_def)
  qed
qed

lemma count_tables_calls:
  "t \<in> set list \<Longrightarrow> Execute MySQL (CountAll t) \<in> set (snd (count_tables env s list))"
proof (induction list arbitrary: s)
  case Nil
  then show ?case by simp
next
  case (Cons x xs)
  then show ?case
    using count_table_calls [of x env s]
    by (auto simp: case_prod_unfold Let_def)
qed

lemma distinct_TABLES: "distinct TABLES"
  by (simp add: TABLES_def)

lemma get_table_counts_connected:
  "c_mysql_connect env = Done () \<Longrightarrow> c_sr_connect env = Done () \<Longrightarrow>
   get_table_counts env s =
     (fst (count_tables env s TABLES),
      [Connect MySQL, Connect StarRocks, LockAcquire] @ snd (count_tables env s TABLES)
      @ [LockRelease, Close MySQL, Close StarRocks])"
  by (simp add: get_table_counts_def case_prod_unfold Let_def)

text \<open>
  Claim C1, as amended. In a reconciliation pass whose two connections succeed, for
  every monitored table: if the source count query fails, the table's \<open>mysql_count\<close>,
  \<open>starrocks_count\<close> and \<open>lag\<close> are left as they were; if the source count query
  succeeds and the sink count query fails, \<open>mysql_count\<close> has already been overwritten
  with the fresh source count while \<open>starrocks_count\<close> and \<open>lag\<close> are left as they
  were; if both succeed, both counts and \<open>lag = mysql_count - starrocks_count\<close> are
  written, so \<open>lag\<close> is only ever assigned from two counts of the same pass. In every
  case the pass goes on: the source count query of every table is issued, whatever
  happened to the tables before it. All the writes of the pass are made by the loop
  over the tables, which runs between one \<open>LockAcquire\<close> and one \<open>LockRelease\<close>.
\<close>

theorem get_table_counts_per_table:
  assumes "c_mysql_connect env = Done ()" and "c_sr_connect env = Done ()"
    and "t \<in> set TABLES" and "tables s t = Some ts"
  shows "let s' = fst (get_table_counts env s); calls = snd (get_table_counts env s) in
           (\<forall>e. mysql_count_query env t = Failed e \<longrightarrow> tables s' t = Some ts)
         \<and> (\<forall>c e. mysql_count_query env t = Done c \<and> sr_count_query env t = Failed e \<longrightarrow>
               tables s' t = Some (ts\<lparr>mysql_count := c\<rparr>))
         \<and> (\<forall>c c'. mysql_count_query env t = Done c \<and> sr_count_query env t = Done c' \<longrightarrow>
               tables s' t = Some (ts\<lparr>mysql_count := c, starrocks_count := c', lag := c - c'\<rparr>))
         \<and> Execute MySQL (CountAll t) \<in> set calls
         \<and> s' = fst (count_tables env s TABLES)
         \<and> calls = [Connect MySQL, Connect StarRocks, LockAcquire]
                   @ snd (count_tables env s TABLES)
                   @ [LockRelease, Close MySQL, Close StarRocks]"
proof -
  have "tables (fst (count_tables env s TABLES)) t = tables (fst (count_table env s t)) t"
    using distinct_TABLES assms(3,4) by (rule count_tables_in)
  then show ?thesis
    using count_table_self [OF assms(4), of env] count_tables_calls [OF assms(3), of env s]
    by (auto simp: get_table_counts_connected [OF assms(1,2)] Let_def)
qed


lemma tables_init: "t \<in> set TABLES \<Longrightarrow> tables MonitorState_init t = Some TableStats_init"
  by (auto simp: MonitorState_init_def TABLES_def)

text \<open>
  The theorem at a pass in which the count of \<open>orders\<close> fails on the source: \<open>products\<close>,
  later in the list, is still counted (1000 and 980, \<open>lag = 20\<close>).
\<close>

theorem get_table_counts_per_table_witness:
  "c_mysql_connect flaky_counts = Done () \<and> c_sr_connect flaky_counts = Done ()
   \<and> ''products'' \<in> set TABLES
   \<and> tables MonitorState_init ''products'' = Some TableStats_init
   \<and> mysql_count_query flaky_counts ''orders'' = Failed ''gone away''
   \<and> mysql_count_query flaky_counts ''products'' = Done 1000
   \<and> sr_count_query flaky_counts ''products'' = Done 980
   \<and> tables (fst (get_table_counts flaky_counts MonitorState_init)) ''products'' =
       Some (TableStats_init\<lparr>mysql_count := 1000, starrocks_count := 980, lag := 20\<rparr>)"
proof -
  have h1: "c_mysql_connect flaky_counts = Done ()" and h2: "c_sr_connect flaky_counts = Done ()"
    by (simp_all add: flaky_counts_def)
  have h3: "''products'' \<in> set TABLES" by (simp add: TABLES_def)
  have h4: "tables MonitorState_init ''products'' = Some TableStats_init"
    using h3 by (rule tables_init)
  have q: "mysql_count_query flaky_counts ''orders'' = Failed ''gone away''"
    "mysql_count_query flaky_counts ''products'' = Done 1000"
    "sr_count_query flaky_counts ''products'' = Done 980"
    by (simp_all add: flaky_counts_def)
  from get_table_counts_per_table [OF h1 h2 h3 h4] q
  have "tables (fst (get_table_counts flaky_counts MonitorState_init)) ''products'' =
       Some (TableStats_init\<lparr>mysql_count := 1000, starrocks_count := 980,
                              lag := 1000 - 980\<rparr>)"
    unfolding Let_def by blast
  then show ?thesis using h1 h2 h3 h4 q by simp
qed

text \<open>
  Claim C1 as stated fails: when the sink count of \<open>customers\<close> fails after its source
  count succeeded, \<open>mysql_count\<close> is not left untouched: it was 0 and is 1000 after the
  pass (with \<open>starrocks_count\<close> and \<open>lag\<close> still 0).
\<close>

theorem sink_failure_keeps_new_source_count:
  "sr_count_query flaky_counts ''customers'' = Failed ''gone away''
   \<and> tables MonitorState_init ''customers'' = Some TableStats_init
   \<and> mysql_count TableStats_init = 0
   \<and> tables (fst (get_table_counts flaky_counts MonitorState_init)) ''customers'' =
       Some (TableStats_init\<lparr>mysql_count := 1000\<rparr>)"
proof -
  have h1: "c_mysql_connect flaky_counts = Done ()" and h2: "c_sr_connect flaky_counts = Done ()"
    by (simp_all add: flaky_counts_def)
  have h3: "''customers'' \<in> set TABLES" by (simp add: TABLES_def)
  have h4: "tables MonitorState_init ''customers'' = Some TableStats_init"
    using h3 by (rule tables_init)
  have q: "mysql_count_query flaky_counts ''customers'' = Done 1000"
    "sr_count_query flaky_counts ''customers'' = Failed ''gone away''"
    by (simp_all add: flaky_counts_def)
  have "tables (fst (count_tables flaky_counts MonitorState_init TABLES)) ''customers''
        = tables (fst (count_table flaky_counts MonitorState_init ''customers'')) ''customers''"
    using distinct_TABLES h3 h4 by (rule count_tables_in)
  then show ?thesis
    using count_table_self [OF h4, of flaky_counts] q h4
    by (simp add: get_table_counts_connected [OF h1 h2] TableStats_init_def)
qed

subsection \<open>The polling loop and the probe\<close>

lemma poll_loop_timeout: "timeout \<le> elapsed \<Longrightarrow> poll_loop env table m k elapsed = (None, elapsed, [])"
  by (simp add: poll_loop.simps)

lemma poll_loop_found:
  "elapsed < timeout \<Longrightarrow> found (fst (poll_once env table m k)) \<Longrightarrow>
   poll_loop env table m k elapsed =
     (Some (elapsed + t_query env k), elapsed + t_query env k, snd (poll_once env table m k))"
  by (subst poll_loop.simps) (simp add: case_prod_unfold Let_def)

lemma poll_loop_continue:
  "elapsed < timeout \<Longrightarrow> \<not> found (fst (poll_once env table m k)) \<Longrightarrow>
   poll_loop env table m k elapsed =
     (fst (poll_loop env table m (Suc k) (elapsed + t_query env k + poll_interval)),
      fst (snd (poll_loop env table m (Suc k) (elapsed + t_query env k + poll_interval))),
      snd (poll_once env table m k) @ [Sleep poll_interval]
      @ snd (snd (poll_loop env table m (Suc k) (elapsed + t_query env k + poll_interval))))"
  by (subst poll_loop.simps) (simp add: case_prod_unfold Let_def)

lemma poll_loop_left_late:
  "fst (poll_loop env table m k elapsed) = None \<Longrightarrow>
   timeout \<le> fst (snd (poll_loop env table m k elapsed))"
proof (induction env table m k elapsed rule: poll_loop.induct)
  case (1 env table m k elapsed)
  show ?case
  proof (cases "elapsed < timeout")
    case False
    then show ?thesis by (simp add: poll_loop_timeout)
  next
    case True
    show ?thesis
    proof (cases "found (fst (poll_once env table m k))")
      case f: True
      then show ?thesis using "1.prems" True by (simp add: poll_loop_found)
    next
      case nf: False
      have "fst (poll_loop env table m (Suc k) (elapsed + t_query env k + poll_interval)) = None"
        using "1.prems" True nf by (simp add: poll_loop_continue)
      then have "timeout \<le> fst (snd (poll_loop env table m (Suc k) (elapsed + t_query env k + poll_interval)))"
        using "1.IH" [OF True refl surjective_pairing [symmetric] refl nf] by simp
      then show ?thesis using True nf by (simp add: poll_loop_continue)
    qed
  qed
qed


lemma found_poll_once_calm:
  "found (fst (poll_once (without_query_errors env) table m k)) = found (fst (poll_once env table m k))"
  by (auto simp: poll_once_def without_query_errors_def found_def split: option.splits db.splits)

lemma poll_loop_calm:
  "fst (poll_loop (without_query_errors env) table m k elapsed) = fst (poll_loop env table m k elapsed)
   \<and> fst (snd (poll_loop (without_query_errors env) table m k elapsed))
       = fst (snd (poll_loop env table m k elapsed))"
proof (induction env table m k elapsed rule: poll_loop.induct)
  case (1 env table m k elapsed)
  have tq: "t_query (without_query_errors env) = t_query env"
    by (simp add: without_query_errors_def)
  show ?case
  proof (cases "elapsed < timeout")
    case False
    then show ?thesis by (simp add: poll_loop_timeout)
  next
    case True
    show ?thesis
    proof (cases "found (fst (poll_once env table m k))")
      case f: True
      then show ?thesis using True
        by (simp add: poll_loop_found found_poll_once_calm tq)
    next
      case nf: False
      show ?thesis
        using "1.IH" [OF True refl surjective_pairing [symmetric] refl nf] True nf
        by (simp add: poll_loop_continue found_poll_once_calm tq)
    qed
  qed
qed

lemma poll_loop_never_found:
  "\<forall>j. poll_time env j < timeout \<longrightarrow> \<not> found (fst (poll_once env table m j)) \<Longrightarrow>
   elapsed = poll_time env k \<Longrightarrow> fst (poll_loop env table m k elapsed) = None"
proof (induction env table m k elapsed rule: poll_loop.induct)
  case (1 env table m k elapsed)
  show ?case
  proof (cases "elapsed < timeout")
    case False
    then show ?thesis by (simp add: poll_loop_timeout)
  next
    case True
    then have nf: "\<not> found (fst (poll_once env table m k))"
      using "1.prems" by blast
    have "elapsed + t_query env k + poll_interval = poll_time env (Suc k)"
      using "1.prems" by simp
    then show ?thesis
      using "1.IH" [OF True refl surjective_pairing [symmetric] refl nf "1.prems"(1)] True nf
      by (simp add: poll_loop_continue)
  qed
qed

lemma poll_loop_some:
  "fst (poll_loop env table m k elapsed) = Some l \<Longrightarrow>
   \<exists>j\<ge>k. \<exists>c>0. fst (poll_once env table m j) = Done c"
proof (induction env table m k elapsed rule: poll_loop.induct)
  case (1 env table m k elapsed)
  show ?case
  proof (cases "elapsed < timeout")
    case False
    then show ?thesis using "1.prems" by (simp add: poll_loop_timeout)
  next
    case True
    show ?thesis
    proof (cases "found (fst (poll_once env table m k))")
      case f: True
      then obtain c where "fst (poll_once env table m k) = Done c" "0 < c"
        by (auto simp: found_def split: db.splits)
      then show ?thesis by blast
    next
      case nf: False
      have "fst (poll_loop env table m (Suc k) (elapsed + t_query env k + poll_interval)) = Some l"
        using "1.prems" True nf by (simp add: poll_loop_continue)
      then obtain j c where "Suc k \<le> j" "0 < c" "fst (poll_once env table m j) = Done c"
        using "1.IH" [OF True refl surjective_pairing [symmetric] refl nf] by blast
      then show ?thesis by (meson Suc_leD)
    qed
  qed
qed

lemma poll_once_calls:
  "set (snd (poll_once env table m k))
     \<subseteq> {Fetch StarRocks} \<union> {e. \<exists>t c v. e = Execute StarRocks (SelectCount t c v)}"
  by (auto simp: poll_once_def probe_select_def split: option.splits db.splits if_splits)

lemma poll_loop_calls:
  "set (snd (snd (poll_loop env table m k elapsed)))
     \<subseteq> {Fetch StarRocks, Sleep poll_interval}
       \<union> {e. \<exists>t c v. e = Execute StarRocks (SelectCount t c v)}"
proof (induction env table m k elapsed rule: poll_loop.induct)
  case (1 env table m k elapsed)
  show ?case
  proof (cases "elapsed < timeout")
    case False
    then show ?thesis by (simp add: poll_loop_timeout)
  next
    case True
    show ?thesis
    proof (cases "found (fst (poll_once env table m k))")
      case f: True
      then show ?thesis using True poll_once_calls [of env table m k]
        by (auto simp: poll_loop_found)
    next
      case nf: False
      show ?thesis
        using "1.IH" [OF True refl surjective_pairing [symmetric] refl nf] True nf
          poll_once_calls [of env table m k]
        by (auto simp: poll_loop_continue)
    qed
  qed
qed


lemma poll_loop_no_delete: "filter is_delete (snd (snd (poll_loop env table m k elapsed))) = []"
  using poll_loop_calls [of env table m k elapsed] by (auto simp: filter_empty_conv)

lemma probe_branches:
  "probe_insert table m = Some q \<Longrightarrow>
   \<exists>cols c v. q = Insert table cols \<and> (c, v) \<in> set cols
     \<and> probe_select table m = Some (SelectCount table c v)
     \<and> probe_delete table m = Some (Delete table c v)"
  by (auto simp: probe_insert_def probe_select_def probe_delete_def split: if_splits)

lemma probe_no_branch:
  "probe_insert table m = None \<Longrightarrow> probe_select table m = None \<and> probe_delete table m = None"
  by (auto simp: probe_insert_def probe_select_def probe_delete_def split: if_splits)

lemma insert_step_no_delete: "filter is_delete (snd (insert_step env table m)) = []"
  by (auto simp: insert_step_def probe_insert_def split: option.splits if_splits)

lemma cleanup_probe_deletes:
  "filter is_delete (cleanup_probe env table m) =
     (case cleanup_connect env of
        Failed e \<Rightarrow> []
      | Done u \<Rightarrow> (case probe_delete table m of None \<Rightarrow> [] | Some q \<Rightarrow> [Execute MySQL q]))"
  by (auto simp: cleanup_probe_def probe_delete_def Let_def split: db.splits option.splits if_splits)

lemma probe_latency_polling:
  assumes "mysql_connect env = Done ()" and "fst (insert_step env table (marker env)) = Done ()"
    and "mysql_commit env = Done ()" and "sr_connect env = Done ()"
  shows "probe_latency env s table =
     (map_option real (fst (poll_loop env table (marker env) 0 (t_setup env))), s,
      ([Connect MySQL] @ snd (insert_step env table (marker env))
       @ [Commit MySQL, Close MySQL, Connect StarRocks]
       @ snd (snd (poll_loop env table (marker env) 0 (t_setup env))) @ [Close StarRocks])
      @ cleanup_probe env table (marker env))"
proof -
  obtain ins where "insert_step env table (marker env) = (Done (), ins)"
    using assms(2) by (cases "insert_step env table (marker env)") auto
  then show ?thesis
    using assms(1,3,4) by (simp add: probe_latency_def Let_def case_prod_unfold)
qed

lemma probe_timed_out:
  assumes "mysql_connect env = Done ()" and "fst (insert_step env table (marker env)) = Done ()"
    and "mysql_commit env = Done ()" and "sr_connect env = Done ()"
    and "\<forall>k. poll_time env k < timeout \<longrightarrow> \<not> found (fst (poll_once env table (marker env) k))"
  shows "probe_latency env s table =
     (None, s,
      ([Connect MySQL] @ snd (insert_step env table (marker env))
       @ [Commit MySQL, Close MySQL, Connect StarRocks]
       @ snd (snd (poll_loop env table (marker env) 0 (t_setup env))) @ [Close StarRocks])
      @ cleanup_probe env table (marker env))"
proof -
  have "fst (poll_loop env table (marker env) 0 (t_setup env)) = None"
    using assms(5) by (rule poll_loop_never_found) simp
  then show ?thesis using probe_latency_polling [OF assms(1-4), of s] by simp
qed

lemma probe_deletes:
  assumes "mysql_connect env = Done ()" and "fst (insert_step env table (marker env)) = Done ()"
    and "mysql_commit env = Done ()" and "sr_connect env = Done ()"
  shows "filter is_delete (snd (snd (probe_latency env s table))) =
     (case cleanup_connect env of
        Failed e \<Rightarrow> []
      | Done u \<Rightarrow> (case probe_delete table (marker env) of
                     None \<Rightarrow> [] | Some q \<Rightarrow> [Execute MySQL q]))"
  unfolding probe_latency_polling [OF assms]
  by (simp add: insert_step_no_delete poll_loop_no_delete cleanup_probe_deletes)

lemma poll_time_cleanup:
  "poll_time (env\<lparr>cleanup_connect := c, delete_execute := d, cleanup_commit := cm\<rparr>) k
     = poll_time env k"
  by (induction k) simp_all


lemma poll_once_cleanup:
  "poll_once (env\<lparr>cleanup_connect := c, delete_execute := d, cleanup_commit := cm\<rparr>) table m k
     = poll_once env table m k"
  by (simp add: poll_once_def cong: option.case_cong db.case_cong)

lemma insert_step_cleanup:
  "insert_step (env\<lparr>cleanup_connect := c, delete_execute := d, cleanup_commit := cm\<rparr>) table m
     = insert_step env table m"
  by (simp add: insert_step_def cong: option.case_cong)

text \<open>
  Claim C2, as amended. Take a probe that has inserted its marker row and reached its
  polling loop (source connection, insert, commit and sink connection succeed), and in
  which no poll begun before the timeout of 30 s finds the marker. The probe returns
  \<open>None\<close> and leaves the state as it was. \<^verbatim>\<open>cleanup_probe\<close> is called once, after the
  loop, and no \<^verbatim>\<open>DELETE\<close> is issued before it; the whole probe issues at most one
  \<^verbatim>\<open>DELETE\<close>, and when the connection of the cleanup succeeds it issues exactly one, on
  the column and value the insert wrote. Whatever the cleanup's connection, delete and
  commit do, the probe's outcome is the same: a failure of the cleanup is dropped.
\<close>

theorem timed_out_probe_cleanup:
  assumes "mysql_connect env = Done ()"
    and "probe_insert table (marker env) = Some q" and "insert_execute env = Done ()"
    and "mysql_commit env = Done ()" and "sr_connect env = Done ()"
    and "\<forall>k. poll_time env k < timeout \<longrightarrow> \<not> found (fst (poll_once env table (marker env) k))"
  shows "let calls = snd (snd (probe_latency env s table)) in
           fst (probe_latency env s table) = None
         \<and> fst (snd (probe_latency env s table)) = s
         \<and> (\<exists>before. calls = before @ cleanup_probe env table (marker env)
                \<and> filter is_delete before = [])
         \<and> length (filter is_delete calls) \<le> 1
         \<and> (cleanup_connect env = Done () \<longrightarrow>
              (\<exists>cols c v. q = Insert table cols \<and> (c, v) \<in> set cols
                 \<and> filter is_delete calls = [Execute MySQL (Delete table c v)]))
         \<and> (\<forall>c d cm.
              fst (probe_latency
                     (env\<lparr>cleanup_connect := c, delete_execute := d, cleanup_commit := cm\<rparr>)
                     s table) = None
            \<and> fst (snd (probe_latency
                     (env\<lparr>cleanup_connect := c, delete_execute := d, cleanup_commit := cm\<rparr>)
                     s table)) = s)"
proof -
  have ins: "fst (insert_step env table (marker env)) = Done ()"
    using assms(2,3) by (simp add: insert_step_def)
  note reach = assms(1) ins assms(4,5)
  note run = probe_timed_out [OF reach assms(6), of s]
  have one: "\<exists>before. snd (snd (probe_latency env s table))
                = before @ cleanup_probe env table (marker env)
              \<and> filter is_delete before = []"
    unfolding run by (auto simp: insert_step_no_delete poll_loop_no_delete)
  have most: "length (filter is_delete (snd (snd (probe_latency env s table)))) \<le> 1"
    unfolding probe_deletes [OF reach] by (simp split: db.splits option.splits)
  have row: "\<exists>cols c v. q = Insert table cols \<and> (c, v) \<in> set cols
               \<and> filter is_delete (snd (snd (probe_latency env s table)))
                   = [Execute MySQL (Delete table c v)]"
    if "cleanup_connect env = Done ()"
    using probe_branches [OF assms(2)] that unfolding probe_deletes [OF reach]
    by auto
  have any: "fst (probe_latency
                     (env\<lparr>cleanup_connect := c, delete_execute := d, cleanup_commit := cm\<rparr>)
                     s table) = None
            \<and> fst (snd (probe_latency
                     (env\<lparr>cleanup_connect := c, delete_execute := d, cleanup_commit := cm\<rparr>)
                     s table)) = s" for c d cm
  proof -
    let ?env = "env\<lparr>cleanup_connect := c, delete_execute := d, cleanup_commit := cm\<rparr>"
    have 1: "mysql_connect ?env = Done ()" using assms(1) by simp
    have 2: "fst (insert_step ?env table (marker ?env)) = Done ()"
      using ins by (simp add: insert_step_cleanup)
    have 3: "mysql_commit ?env = Done ()" using assms(4) by simp
    have 4: "sr_connect ?env = Done ()" using assms(5) by simp
    have 5: "\<forall>k. poll_time ?env k < timeout \<longrightarrow>
                \<not> found (fst (poll_once ?env table (marker ?env) k))"
      using assms(6) by (simp add: poll_time_cleanup poll_once_cleanup)
    show ?thesis unfolding probe_timed_out [OF 1 2 3 4 5, of s] by simp
  qed
  show ?thesis
    unfolding Let_def using run one most row any by (simp only: fst_conv snd_conv) blast
qed


lemma quiet_sink_never_found:
  "\<not> found (fst (poll_once (quiet_sink t0) table m k))"
  by (simp add: poll_once_def quiet_sink_def found_def split: option.splits)

lemma quiet_sink_reaches_polling:
  "mysql_connect (quiet_sink t0) = Done ()"
  "fst (insert_step (quiet_sink t0) table m) = Done ()"
  "mysql_commit (quiet_sink t0) = Done ()"
  "sr_connect (quiet_sink t0) = Done ()"
  by (simp_all add: quiet_sink_def insert_step_def split: option.splits)

text \<open>
  The theorem at a probe of \<open>orders\<close> against a sink that never shows the marker.
\<close>

theorem timed_out_probe_cleanup_witness:
  "mysql_connect (quiet_sink 0) = Done ()
   \<and> probe_insert ''orders'' (marker (quiet_sink 0))
       = Some (Insert ''orders'' [(''shipping_address'', ''probe_1700000000000_4242'')])
   \<and> insert_execute (quiet_sink 0) = Done ()
   \<and> mysql_commit (quiet_sink 0) = Done () \<and> sr_connect (quiet_sink 0) = Done ()
   \<and> cleanup_connect (quiet_sink 0) = Done ()
   \<and> fst (probe_latency (quiet_sink 0) MonitorState_init ''orders'') = None
   \<and> filter is_delete (snd (snd (probe_latency (quiet_sink 0) MonitorState_init ''orders'')))
       = [Execute MySQL (Delete ''orders'' ''shipping_address'' ''probe_1700000000000_4242'')]"
proof -
  have nf: "\<forall>k. poll_time (quiet_sink 0) k < timeout \<longrightarrow>
              \<not> found (fst (poll_once (quiet_sink 0) ''orders'' (marker (quiet_sink 0)) k))"
    by (simp add: quiet_sink_never_found)
  have c: "cleanup_connect (quiet_sink 0) = Done ()" by (simp add: quiet_sink_def)
  have i: "probe_insert ''orders'' (marker (quiet_sink 0))
       = Some (Insert ''orders'' [(''shipping_address'', ''probe_1700000000000_4242'')])"
    by (simp add: probe_insert_def quiet_sink_def)
  have r: "mysql_connect (quiet_sink 0) = Done ()" "insert_execute (quiet_sink 0) = Done ()"
    "mysql_commit (quiet_sink 0) = Done ()" "sr_connect (quiet_sink 0) = Done ()"
    by (simp_all add: quiet_sink_def)
  show ?thesis
    using timed_out_probe_cleanup [OF r(1) i r(2,3,4) nf, where s = MonitorState_init] r c i
    by (auto simp: Let_def)
qed

text \<open>
  Claim C2 as stated fails: the timeout is tested only before a poll begins. In the
  world \<open>slow_sink\<close> the poll begun 29950 ms after \<^verbatim>\<open>insert_time\<close> is answered at
  32100 ms, after the timeout of 30000 ms, and shows the marker: no answer of the sink
  showed the marker within the timeout, yet the probe of \<open>orders\<close> returns a latency,
  32100 ms, and not \<open>None\<close>.
\<close>

theorem late_answer_returns_latency:
  "timeout = 30000
   \<and> t_setup slow_sink = 29950
   \<and> t_setup slow_sink + t_query slow_sink 0 = 32100
   \<and> fst (probe_latency slow_sink MonitorState_init ''orders'') = Some 32100"
proof -
  have r: "mysql_connect slow_sink = Done ()"
    "fst (insert_step slow_sink ''orders'' (marker slow_sink)) = Done ()"
    "mysql_commit slow_sink = Done ()" "sr_connect slow_sink = Done ()"
    by (simp_all add: slow_sink_def quiet_sink_def insert_step_def split: option.splits)
  have t: "t_setup slow_sink = 29950" "t_query slow_sink 0 = 2150"
    by (simp_all add: slow_sink_def quiet_sink_def)
  have f: "found (fst (poll_once slow_sink ''orders'' (marker slow_sink) 0))"
    by (simp add: poll_once_def probe_select_def slow_sink_def quiet_sink_def found_def)
  have "fst (poll_loop slow_sink ''orders'' (marker slow_sink) 0 29950) = Some 32100"
    using f by (subst poll_loop_found) (simp_all add: timeout_def t)
  then show ?thesis
    using probe_latency_polling [OF r, of MonitorState_init] t
    by (simp add: timeout_def)
qed

text \<open>
  A probe of \<open>order_items\<close> that polls until the timeout issues no \<^verbatim>\<open>DELETE\<close>, even when
  the connection of the cleanup succeeds: \<^verbatim>\<open>cleanup_probe\<close> has no branch for the table.
\<close>

lemma order_items_timeout_issues_no_delete:
  "cleanup_connect (quiet_sink 0) = Done ()
   \<and> fst (probe_latency (quiet_sink 0) MonitorState_init ''order_items'') = None
   \<and> timeout \<le> fst (snd (poll_loop (quiet_sink 0) ''order_items'' (marker (quiet_sink 0)) 0
                          (t_setup (quiet_sink 0))))
   \<and> filter is_delete (snd (snd (probe_latency (quiet_sink 0) MonitorState_init ''order_items'')))
       = []"
proof -
  have nf: "\<forall>k. poll_time (quiet_sink 0) k < timeout \<longrightarrow>
              \<not> found (fst (poll_once (quiet_sink 0) ''order_items'' (marker (quiet_sink 0)) k))"
    by (simp add: quiet_sink_never_found)
  have c: "cleanup_connect (quiet_sink 0) = Done ()" by (simp add: quiet_sink_def)
  have none: "fst (poll_loop (quiet_sink 0) ''order_items'' (marker (quiet_sink 0)) 0
                          (t_setup (quiet_sink 0))) = None"
    using nf by (rule poll_loop_never_found) simp
  have d: "probe_delete ''order_items'' (marker (quiet_sink 0)) = None"
    by (simp add: probe_delete_def)
  have r: "mysql_connect (quiet_sink 0) = Done ()"
    "fst (insert_step (quiet_sink 0) ''order_items'' (marker (quiet_sink 0))) = Done ()"
    "mysql_commit (quiet_sink 0) = Done ()" "sr_connect (quiet_sink 0) = Done ()"
    by (rule quiet_sink_reaches_polling)+
  show ?thesis
    using probe_timed_out [OF r nf, where s = MonitorState_init]
      probe_deletes [OF r, where s = MonitorState_init]
      poll_loop_left_late [OF none] c d
    by simp
qed

text \<open>
  Claim C7. In the polling loop of a probe, a sink query that raises while time is left
  does not end the loop: the loop sleeps the poll interval and goes on with the next
  poll. The loop (which always ends) is left without a latency only at or after the
  timeout, and with a latency only when some poll returned a count above 0. The outcome
  and the time at which the loop is left are the same as in the world where every
  failed query had answered ``count 0''. A probe that has reached the loop returns what
  the loop returns and reports no error.
\<close>

theorem poll_errors_do_not_abort:
  "(\<forall>e. elapsed < timeout \<and> fst (poll_once env table m k) = Failed e \<longrightarrow>
       poll_loop env table m k elapsed =
         (fst (poll_loop env table m (Suc k) (elapsed + t_query env k + poll_interval)),
          fst (snd (poll_loop env table m (Suc k) (elapsed + t_query env k + poll_interval))),
          snd (poll_once env table m k) @ [Sleep poll_interval]
          @ snd (snd (poll_loop env table m (Suc k) (elapsed + t_query env k + poll_interval)))))
   \<and> (fst (poll_loop env table m k elapsed) = None \<longrightarrow>
        timeout \<le> fst (snd (poll_loop env table m k elapsed)))
   \<and> (\<forall>l. fst (poll_loop env table m k elapsed) = Some l \<longrightarrow>
        (\<exists>j\<ge>k. \<exists>c>0. fst (poll_once env table m j) = Done c))
   \<and> fst (poll_loop (without_query_errors env) table m k elapsed)
       = fst (poll_loop env table m k elapsed)
   \<and> fst (snd (poll_loop (without_query_errors env) table m k elapsed))
       = fst (snd (poll_loop env table m k elapsed))
   \<and> (mysql_connect env = Done () \<and> fst (insert_step env table (marker env)) = Done ()
      \<and> mysql_commit env = Done () \<and> sr_connect env = Done () \<longrightarrow>
        fst (probe_latency env s table)
          = map_option real (fst (poll_loop env table (marker env) 0 (t_setup env)))
      \<and> fst (snd (probe_latency env s table)) = s)"
proof -
  have a: "poll_loop env table m k elapsed =
         (fst (poll_loop env table m (Suc k) (elapsed + t_query env k + poll_interval)),
          fst (snd (poll_loop env table m (Suc k) (elapsed + t_query env k + poll_interval))),
          snd (poll_once env table m k) @ [Sleep poll_interval]
          @ snd (snd (poll_loop env table m (Suc k) (elapsed + t_query env k + poll_interval))))"
    if "elapsed < timeout" and "fst (poll_once env table m k) = Failed e" for e
    using that by (intro poll_loop_continue) (simp_all add: found_def)
  have b: "fst (probe_latency env s table)
          = map_option real (fst (poll_loop env table (marker env) 0 (t_setup env)))
      \<and> fst (snd (probe_latency env s table)) = s"
    if "mysql_connect env = Done ()" and "fst (insert_step env table (marker env)) = Done ()"
      and "mysql_commit env = Done ()" and "sr_connect env = Done ()"
    unfolding probe_latency_polling [OF that] by simp
  show ?thesis
    using a b poll_loop_left_late [of env table m k elapsed]
      poll_loop_some [of env table m k elapsed] poll_loop_calm [of env table m k elapsed]
    by blast
qed

text \<open>
  The theorem at a probe of \<open>orders\<close> whose first sink query raises and whose second,
  100 ms later, finds the marker: the latency is 200 ms.
\<close>

theorem poll_errors_do_not_abort_witness:
  "0 < timeout
   \<and> fst (poll_once reset_once ''orders'' (marker reset_once) 0) = Failed ''connection reset''
   \<and> fst (poll_loop reset_once ''orders'' (marker reset_once) 0 0) = Some 200
   \<and> snd (snd (poll_loop reset_once ''orders'' (marker reset_once) 0 0))
       = [Execute StarRocks (SelectCount ''orders'' ''shipping_address'' (marker reset_once)),
          Sleep 100,
          Execute StarRocks (SelectCount ''orders'' ''shipping_address'' (marker reset_once)),
          Fetch StarRocks]"
proof -
  have t: "(0::nat) < timeout" by (simp add: timeout_def)
  have p0: "poll_once reset_once ''orders'' (marker reset_once) 0
      = (Failed ''connection reset'',
         [Execute StarRocks (SelectCount ''orders'' ''shipping_address'' (marker reset_once))])"
    by (simp add: poll_once_def probe_select_def reset_once_def)
  have p1: "poll_once reset_once ''orders'' (marker reset_once) (Suc 0)
      = (Done 1,
         [Execute StarRocks (SelectCount ''orders'' ''shipping_address'' (marker reset_once)),
          Fetch StarRocks])"
    by (simp add: poll_once_def probe_select_def reset_once_def)
  have tq: "t_query reset_once = (\<lambda>k. 50)" by (simp add: reset_once_def)
  have nxt: "poll_loop reset_once ''orders'' (marker reset_once) (Suc 0) 150
      = (Some 200, 200,
         [Execute StarRocks (SelectCount ''orders'' ''shipping_address'' (marker reset_once)),
          Fetch StarRocks])"
    by (subst poll_loop_found) (simp_all add: p1 tq found_def timeout_def)
  show ?thesis
    using poll_errors_do_not_abort [where elapsed = 0 and env = reset_once
        and table = "''orders''" and m = "marker reset_once" and k = 0] t p0 nxt
    by (simp add: tq poll_interval_def)
qed

subsection \<open>Probes of \<open>order_items\<close>\<close>

lemma order_items_no_branch:
  "probe_insert ''order_items'' m = None" "probe_select ''order_items'' m = None"
  "probe_delete ''order_items'' m = None"
  by (simp_all add: probe_insert_def probe_select_def probe_delete_def)

lemma order_items_poll_once:
  "poll_once env ''order_items'' m k = (Failed ''No result set to fetch from'', [Fetch StarRocks])"
  by (simp add: poll_once_def order_items_no_branch)

lemma order_items_insert_step: "insert_step env ''order_items'' m = (Done (), [])"
  by (simp add: insert_step_def order_items_no_branch)

lemma order_items_cleanup:
  "\<forall>q. Execute MySQL q \<notin> set (cleanup_probe env ''order_items'' m)"
  by (simp add: cleanup_probe_def order_items_no_branch Let_def split: db.splits)

lemma order_items_polls_never_find:
  "\<forall>k. poll_time env k < timeout \<longrightarrow> \<not> found (fst (poll_once env ''order_items'' m k))"
  by (simp add: order_items_poll_once found_def)

lemma order_items_poll_loop:
  "fst (poll_loop env ''order_items'' m 0 (t_setup env)) = None"
  using order_items_polls_never_find by (rule poll_loop_never_found) simp

lemma probe_latency_state:
  "fst (snd (probe_latency env s table)) = s
   \<or> (\<exists>e. fst (snd (probe_latency env s table)) = s\<lparr>error_message := e\<rparr>)"
  by (auto simp: probe_latency_def probe_fail_def Let_def case_prod_unfold split: db.splits)

lemma order_items_probe_none: "fst (probe_latency env s ''order_items'') = None"
  using order_items_poll_loop [of env "marker env"]
  by (auto simp: probe_latency_def probe_fail_def Let_def case_prod_unfold
      order_items_insert_step split: db.splits)

lemma order_items_probe_no_execute:
  "Execute MySQL q \<notin> set (snd (snd (probe_latency env s ''order_items'')))"
  using poll_loop_calls [of env "''order_items''" "marker env" 0 "t_setup env"]
    order_items_cleanup [of env "marker env"]
  by (auto simp: probe_latency_def probe_fail_def Let_def case_prod_unfold
      order_items_insert_step split: db.splits)


text \<open>
  Claim C8, as amended. \<open>order_items\<close> is in \<open>TABLES\<close>, and \<^verbatim>\<open>probe_latency\<close> has neither an
  insert branch nor a sink-lookup branch for it. A probe of \<open>order_items\<close> executes no
  statement on the source (it inserts nothing); in every polling iteration the fetch
  raises and is swallowed; the probe returns \<open>None\<close> in every world. When the source
  connection, the commit and the sink connection succeed, the polling loop is left only
  at or after the timeout of 30 s. Recording the probe for the monitored table
  increments \<open>failed_probes\<close> and sets \<open>last_latency_ms\<close> to \<open>-1\<close>.
\<close>

theorem order_items_probe_fails:
  "''order_items'' \<in> set TABLES
   \<and> probe_insert ''order_items'' m = None \<and> probe_select ''order_items'' m = None
   \<and> (\<forall>k. poll_once env ''order_items'' m k
            = (Failed ''No result set to fetch from'', [Fetch StarRocks]))
   \<and> (\<forall>q. Execute MySQL q \<notin> set (snd (snd (probe_latency env s ''order_items''))))
   \<and> fst (probe_latency env s ''order_items'') = None
   \<and> (mysql_connect env = Done () \<and> mysql_commit env = Done () \<and> sr_connect env = Done () \<longrightarrow>
        timeout \<le> fst (snd (poll_loop env ''order_items'' (marker env) 0 (t_setup env)))
      \<and> snd (snd (probe_latency env s ''order_items''))
          = [Connect MySQL, Commit MySQL, Close MySQL, Connect StarRocks]
            @ snd (snd (poll_loop env ''order_items'' (marker env) 0 (t_setup env)))
            @ [Close StarRocks] @ cleanup_probe env ''order_items'' (marker env))
   \<and> (\<forall>ts. tables s ''order_items'' = Some ts \<longrightarrow>
        (let s1 = fst (snd (probe_latency env s ''order_items''));
             s2 = snd (record_sample s1 ''order_items'' (fst (probe_latency env s ''order_items'')))
         in total_probes s2 = total_probes s + 1
          \<and> failed_probes s2 = failed_probes s + 1
          \<and> successful_probes s2 = successful_probes s
          \<and> tables s2 ''order_items'' = Some (ts\<lparr>last_latency_ms := - 1\<rparr>)))"
proof -
  have full: "timeout \<le> fst (snd (poll_loop env ''order_items'' (marker env) 0 (t_setup env)))
      \<and> snd (snd (probe_latency env s ''order_items''))
          = [Connect MySQL, Commit MySQL, Close MySQL, Connect StarRocks]
            @ snd (snd (poll_loop env ''order_items'' (marker env) 0 (t_setup env)))
            @ [Close StarRocks] @ cleanup_probe env ''order_items'' (marker env)"
    if r: "mysql_connect env = Done ()" "mysql_commit env = Done ()" "sr_connect env = Done ()"
  proof -
    have i: "fst (insert_step env ''order_items'' (marker env)) = Done ()"
      by (simp add: order_items_insert_step)
    show ?thesis
      using probe_latency_polling [OF r(1) i r(2,3), of s]
        poll_loop_left_late [OF order_items_poll_loop, of env "marker env"]
      by (simp add: order_items_insert_step)
  qed
  have rec: "let s1 = fst (snd (probe_latency env s ''order_items''));
             s2 = snd (record_sample s1 ''order_items'' (fst (probe_latency env s ''order_items'')))
         in total_probes s2 = total_probes s + 1
          \<and> failed_probes s2 = failed_probes s + 1
          \<and> successful_probes s2 = successful_probes s
          \<and> tables s2 ''order_items'' = Some (ts\<lparr>last_latency_ms := - 1\<rparr>)"
    if t: "tables s ''order_items'' = Some ts" for ts
    using probe_latency_state [of env s "''order_items''"] t
    by (auto simp: Let_def order_items_probe_none record_sample_None)
  show ?thesis
    using full rec order_items_probe_none [of env s] order_items_probe_no_execute [of _ env s]
      order_items_poll_once [of env m]
    by (simp add: order_items_no_branch TABLES_def)
qed

text \<open>
  The theorem at the initial state and a world in which every database call succeeds.
\<close>

theorem order_items_probe_fails_witness:
  "mysql_connect (quiet_sink 0) = Done () \<and> mysql_commit (quiet_sink 0) = Done ()
   \<and> sr_connect (quiet_sink 0) = Done ()
   \<and> tables MonitorState_init ''order_items'' = Some TableStats_init
   \<and> fst (probe_latency (quiet_sink 0) MonitorState_init ''order_items'') = None
   \<and> timeout \<le> fst (snd (poll_loop (quiet_sink 0) ''order_items'' (marker (quiet_sink 0)) 0
                          (t_setup (quiet_sink 0))))
   \<and> failed_probes
        (snd (record_sample (fst (snd (probe_latency (quiet_sink 0) MonitorState_init ''order_items'')))
                ''order_items''
                (fst (probe_latency (quiet_sink 0) MonitorState_init ''order_items'')))) = 1"
proof -
  have r: "mysql_connect (quiet_sink 0) = Done ()" "mysql_commit (quiet_sink 0) = Done ()"
    "sr_connect (quiet_sink 0) = Done ()"
    by (simp_all add: quiet_sink_def)
  have t: "tables MonitorState_init ''order_items'' = Some TableStats_init"
    by (rule tables_init) (simp add: TABLES_def)
  have f: "failed_probes MonitorState_init = 0" by (simp add: MonitorState_init_def)
  show ?thesis
    using order_items_probe_fails [where env = "quiet_sink 0" and s = MonitorState_init
        and m = "marker (quiet_sink 0)"] r t f
    by (auto simp: Let_def)
qed

text \<open>
  Claim C8 as stated fails in one point: a probe of \<open>order_items\<close> does not always run
  until the timeout. When the source connection fails the probe returns \<open>None\<close> at once,
  having made no poll and slept no time.
\<close>

theorem order_items_probe_ends_at_once:
  "probe_latency ((quiet_sink 0)\<lparr>mysql_connect := Failed ''down''\<rparr>) MonitorState_init
     ''order_items''
   = (None, MonitorState_init\<lparr>error_message := ''down''\<rparr>,
      [Connect MySQL, LockAcquire, LockRelease])"
  by (simp add: probe_latency_def probe_fail_def)

subsection \<open>The iterations of the probe thread\<close>

lemma probe_latency_calls_state_free:
  "snd (snd (probe_latency env s table)) = snd (snd (probe_latency env s' table))"
  by (auto simp: probe_latency_def probe_fail_def Let_def case_prod_unfold split: db.splits)

lemma probe_latency_tables: "tables (fst (snd (probe_latency env s table))) = tables s"
  using probe_latency_state [of env s table] by auto

lemma probe_latency_running: "running (fst (snd (probe_latency env s table))) = running s"
  using probe_latency_state [of env s table] by auto

lemma record_sample_dom:
  "tables s t = Some ts \<Longrightarrow>
   fst (record_sample s t latency) = None
   \<and> dom (tables (snd (record_sample s t latency))) = dom (tables s)
   \<and> running (snd (record_sample s t latency)) = running s"
  by (cases latency) (auto simp: record_sample_Some record_sample_None)

lemma probe_loop_log:
  assumes "tabs \<noteq> []" and "set tabs \<subseteq> dom (tables s)"
  shows "k < length (snd (snd (probe_loop s interval tabs ws idx))) \<Longrightarrow>
         k < length ws
         \<and> snd (snd (probe_loop s interval tabs ws idx)) ! k =
             (tabs ! ((idx + k) mod length tabs),
              snd (snd (probe_latency (probe_world (ws ! k)) s' (tabs ! ((idx + k) mod length tabs))))
              @ [LockAcquire, LockRelease, Sleep interval])"
  using assms(2)
proof (induction ws arbitrary: s idx k)
  case Nil
  then show ?case by (simp split: if_splits)
next
  case (Cons w ws)
  let ?t = "tabs ! (idx mod length tabs)"
  let ?p = "probe_latency (probe_world w) s ?t"
  let ?r = "record_sample (fst (snd ?p)) ?t (fst ?p)"
  let ?s3 = "if stop_signal w then (snd ?r)\<lparr>running := False\<rparr> else snd ?r"
  have run: "running s" using Cons.prems(1) by (auto split: if_splits)
  have tin: "?t \<in> set tabs" using assms(1) by simp
  then obtain ts where ts: "tables (fst (snd ?p)) ?t = Some ts"
    using Cons.prems(2) by (auto simp: probe_latency_tables)
  note rd = record_sample_dom [OF ts, of "fst ?p"]
  have unfold: "probe_loop s interval tabs (w # ws) idx =
      (fst (probe_loop ?s3 interval tabs ws (idx + 1)),
       fst (snd (probe_loop ?s3 interval tabs ws (idx + 1))),
       (?t, snd (snd ?p) @ [LockAcquire, LockRelease, Sleep interval])
       # snd (snd (probe_loop ?s3 interval tabs ws (idx + 1))))"
    using run assms(1) rd by (simp add: Let_def case_prod_unfold)
  have sub: "set tabs \<subseteq> dom (tables ?s3)"
    using Cons.prems(2) rd by (auto simp: probe_latency_tables)
  show ?case
  proof (cases k)
    case 0
    then show ?thesis
      using unfold probe_latency_calls_state_free [of "probe_world w" s ?t s'] by simp
  next
    case (Suc j)
    then have "j < length (snd (snd (probe_loop ?s3 interval tabs ws (idx + 1))))"
      using Cons.prems(1) unfold by simp
    from Cons.IH [OF this sub] show ?thesis using Suc unfold by simp
  qed
qed

lemma probe_loop_runs:
  assumes "tabs \<noteq> []" and "set tabs \<subseteq> dom (tables s)"
  shows "running s \<Longrightarrow> \<forall>w \<in> set ws. \<not> stop_signal w \<Longrightarrow>
         length (snd (snd (probe_loop s interval tabs ws idx))) = length ws"
  using assms(2)
proof (induction ws arbitrary: s idx)
  case Nil
  then show ?case by simp
next
  case (Cons w ws)
  let ?t = "tabs ! (idx mod length tabs)"
  let ?p = "probe_latency (probe_world w) s ?t"
  let ?r = "record_sample (fst (snd ?p)) ?t (fst ?p)"
  have tin: "?t \<in> set tabs" using assms(1) by simp
  then obtain ts where ts: "tables (fst (snd ?p)) ?t = Some ts"
    using Cons.prems(3) by (auto simp: probe_latency_tables)
  note rd = record_sample_dom [OF ts, of "fst ?p"]
  have ns: "\<not> stop_signal w" using Cons.prems(2) by simp
  have unfold: "snd (snd (probe_loop s interval tabs (w # ws) idx)) =
       (?t, snd (snd ?p) @ [LockAcquire, LockRelease, Sleep interval])
       # snd (snd (probe_loop (snd ?r) interval tabs ws (idx + 1)))"
    using Cons.prems(1) assms(1) rd ns by (simp add: Let_def case_prod_unfold)
  have run': "running (snd ?r)" using rd Cons.prems(1) by (simp add: probe_latency_running)
  have sub: "set tabs \<subseteq> dom (tables (snd ?r))"
    using Cons.prems(3) rd by (auto simp: probe_latency_tables)
  have "\<forall>w \<in> set ws. \<not> stop_signal w" using Cons.prems(2) by simp
  from Cons.IH [OF run' this sub] show ?case using unfold by simp
qed


text \<open>
  Claim C9. For a non-empty list of monitored tables, iteration \<open>k\<close> of the probe thread
  (counted from 0, for every iteration the thread makes) probes table
  \<open>tables[k mod len(tables)]\<close>; its calls are those of one probe of that table, followed
  by the recording under the lock and one sleep of the probe interval. The calls of a
  probe do not depend on the state, so the probe is written here with the thread's
  first state. While the thread is running and no stop signal arrives, it makes every
  iteration it is given a world for.
\<close>

theorem probe_thread_round_robin:
  assumes "tabs \<noteq> []" and "set tabs \<subseteq> dom (tables s)"
  shows "(\<forall>k < length (snd (snd (latency_probe_thread s interval tabs ws))).
            k < length ws
          \<and> snd (snd (latency_probe_thread s interval tabs ws)) ! k =
              (tabs ! (k mod length tabs),
               snd (snd (probe_latency (probe_world (ws ! k)) s (tabs ! (k mod length tabs))))
               @ [LockAcquire, LockRelease, Sleep interval]))
         \<and> (running s \<and> (\<forall>w \<in> set ws. \<not> stop_signal w) \<longrightarrow>
              length (snd (snd (latency_probe_thread s interval tabs ws))) = length ws)"
  using probe_loop_log [OF assms, of _ interval ws 0 s] probe_loop_runs [OF assms, of ws interval 0]
  by (simp add: latency_probe_thread_def)

text \<open>
  The theorem at seven iterations over the five default tables: the seventh iteration
  (index 6) probes \<open>customers\<close>, the second table.
\<close>

theorem probe_thread_round_robin_witness:
  "TABLES \<noteq> [] \<and> set TABLES \<subseteq> dom (tables MonitorState_init)
   \<and> running MonitorState_init
   \<and> length (snd (snd (latency_probe_thread MonitorState_init 1000 TABLES
                (replicate 7 calm_iteration)))) = 7
   \<and> fst (snd (snd (latency_probe_thread MonitorState_init 1000 TABLES
                (replicate 7 calm_iteration))) ! 6) = ''customers''
   \<and> snd (snd (snd (latency_probe_thread MonitorState_init 1000 TABLES
                (replicate 7 calm_iteration))) ! 6) =
       snd (snd (probe_latency (quiet_sink 30000) MonitorState_init ''customers''))
       @ [LockAcquire, LockRelease, Sleep 1000]"
proof -
  have h1: "TABLES \<noteq> []" by (simp add: TABLES_def)
  have h2: "set TABLES \<subseteq> dom (tables MonitorState_init)"
    using tables_init by auto
  have h3: "running MonitorState_init" by (simp add: MonitorState_init_def)
  have h4: "\<forall>w \<in> set (replicate 7 calm_iteration). \<not> stop_signal w"
    by (simp add: calm_iteration_def)
  have t: "TABLES ! (6 mod length TABLES) = ''customers''" by (simp add: TABLES_def)
  have w: "probe_world (replicate 7 calm_iteration ! 6) = quiet_sink 30000"
    by (simp add: calm_iteration_def)
  note rr = probe_thread_round_robin [OF h1 h2, where interval = 1000
      and ws = "replicate 7 calm_iteration"]
  have len: "length (snd (snd (latency_probe_thread MonitorState_init 1000 TABLES
                (replicate 7 calm_iteration)))) = 7"
    using rr h3 h4 by simp
  have "snd (snd (latency_probe_thread MonitorState_init 1000 TABLES
                (replicate 7 calm_iteration))) ! 6 =
        (''customers'',
         snd (snd (probe_latency (quiet_sink 30000) MonitorState_init ''customers''))
         @ [LockAcquire, LockRelease, Sleep 1000])"
    using rr len t w by simp
  then show ?thesis using h1 h2 h3 len by simp
qed

subsection \<open>The scope of the lock\<close>

lemma network_under_lock_append:
  "LockAcquire \<notin> set a \<Longrightarrow> LockRelease \<notin> set a \<Longrightarrow>
   network_under_lock held (a @ b)
     = ((held \<and> (\<exists>e \<in> set a. is_network e)) \<or> network_under_lock held b)"
proof (induction a)
  case Nil
  then show ?case by simp
next
  case (Cons e a)
  then show ?case by (cases e) auto
qed

lemma poll_loop_lock_free:
  "LockAcquire \<notin> set (snd (snd (poll_loop env table m k elapsed)))
   \<and> LockRelease \<notin> set (snd (snd (poll_loop env table m k elapsed)))"
  using poll_loop_calls [of env table m k elapsed] by auto

lemma insert_step_lock_free:
  "LockAcquire \<notin> set (snd (insert_step env table m))
   \<and> LockRelease \<notin> set (snd (insert_step env table m))"
  by (auto simp: insert_step_def split: option.splits)

lemma cleanup_probe_lock_free:
  "LockAcquire \<notin> set (cleanup_probe env table m)
   \<and> LockRelease \<notin> set (cleanup_probe env table m)"
  by (auto simp: cleanup_probe_def Let_def split: option.splits db.splits)

lemma probe_calls_then:
  "network_under_lock False (snd (snd (probe_latency env s table)) @ rest)
     = network_under_lock False rest"
  by (auto simp: probe_latency_def probe_fail_def Let_def case_prod_unfold
      network_under_lock_append insert_step_lock_free poll_loop_lock_free
      cleanup_probe_lock_free split: db.splits)

lemma probe_iteration_lock:
  "\<not> network_under_lock False (snd (snd (probe_latency env s table)) @ [LockAcquire, LockRelease])"
  "\<not> network_under_lock False
       (snd (snd (probe_latency env s table)) @ [LockAcquire, LockRelease, Sleep interval])"
  by (simp_all add: probe_calls_then)

lemma probe_loop_lock:
  "\<forall>it \<in> set (snd (snd (probe_loop s interval tabs ws idx))).
      \<not> network_under_lock False (snd it)"
proof (induction ws arbitrary: s idx)
  case Nil
  then show ?case by simp
next
  case (Cons w ws)
  show ?case
    using Cons.IH probe_iteration_lock
    by (auto simp: Let_def case_prod_unfold split: option.splits if_splits)
qed

lemma count_table_only_counts:
  "\<forall>e \<in> set (snd (count_table env s t)). \<exists>st. e = Execute st (CountAll t)"
  by (auto simp: count_table_def Let_def split: db.splits option.splits)

lemma count_tables_only_counts:
  "\<forall>e \<in> set (snd (count_tables env s list)). \<exists>st t. e = Execute st (CountAll t)"
proof (induction list arbitrary: s)
  case Nil
  then show ?case by simp
next
  case (Cons x xs)
  show ?case
    using Cons.IH count_table_only_counts [of env s x]
    by (auto simp: Let_def case_prod_unfold)
qed

lemma get_table_counts_lock:
  assumes "c_mysql_connect env = Done ()" and "c_sr_connect env = Done ()"
  shows "network_under_lock False (snd (get_table_counts env s))"
proof -
  let ?calls = "snd (count_tables env s TABLES)"
  have "''orders'' \<in> set TABLES" by (simp add: TABLES_def)
  then have q: "Execute MySQL (CountAll ''orders'') \<in> set ?calls" by (rule count_tables_calls)
  have free: "LockAcquire \<notin> set ?calls" "LockRelease \<notin> set ?calls"
    using count_tables_only_counts [of env s TABLES] by auto
  have "\<exists>e \<in> set ?calls. is_network e" using q by (rule bexI [rotated]) simp
  then show ?thesis
    unfolding get_table_counts_connected [OF assms]
    using network_under_lock_append [OF free, of True "[LockRelease, Close MySQL, Close StarRocks]"]
    by simp
qed


text \<open>
  Claim C10, as amended. In the probe thread no database call is made while the lock is
  held: in every iteration the lock is taken only around the recording (and, inside a
  failed probe, around the assignment of the error message). In a reconciliation pass
  whose connections succeed, the connections are opened before the lock is acquired and
  closed after it is released, but the lock is held for the whole loop over the
  tables: the calls between \<open>LockAcquire\<close> and \<open>LockRelease\<close> are count queries and
  nothing else, they include the source count query of every table, and so a database
  call is made while the lock is held.
\<close>

theorem lock_scope:
  "(\<forall>it \<in> set (snd (snd (latency_probe_thread s interval tabs ws))).
       \<not> network_under_lock False (snd it))
   \<and> (c_mysql_connect env = Done () \<and> c_sr_connect env = Done () \<longrightarrow>
        snd (get_table_counts env s)
          = [Connect MySQL, Connect StarRocks, LockAcquire] @ snd (count_tables env s TABLES)
            @ [LockRelease, Close MySQL, Close StarRocks]
      \<and> (\<forall>e \<in> set (snd (count_tables env s TABLES)). \<exists>st t. e = Execute st (CountAll t))
      \<and> (\<forall>t \<in> set TABLES. Execute MySQL (CountAll t) \<in> set (snd (count_tables env s TABLES)))
      \<and> network_under_lock False (snd (get_table_counts env s)))"
proof -
  have probe: "\<forall>it \<in> set (snd (snd (latency_probe_thread s interval tabs ws))).
       \<not> network_under_lock False (snd it)"
    unfolding latency_probe_thread_def by (rule probe_loop_lock)
  have counts: "snd (get_table_counts env s)
          = [Connect MySQL, Connect StarRocks, LockAcquire] @ snd (count_tables env s TABLES)
            @ [LockRelease, Close MySQL, Close StarRocks]
      \<and> (\<forall>e \<in> set (snd (count_tables env s TABLES)). \<exists>st t. e = Execute st (CountAll t))
      \<and> (\<forall>t \<in> set TABLES. Execute MySQL (CountAll t) \<in> set (snd (count_tables env s TABLES)))
      \<and> network_under_lock False (snd (get_table_counts env s))"
    if c: "c_mysql_connect env = Done ()" "c_sr_connect env = Done ()"
    using get_table_counts_connected [OF c, of s] count_tables_only_counts [of env s TABLES]
      count_tables_calls [of _ TABLES env s] get_table_counts_lock [OF c, of s]
    by simp
  show ?thesis using probe counts by blast
qed

text \<open>
  The theorem at one iteration of the probe thread and at one reconciliation pass.
\<close>

theorem lock_scope_witness:
  "c_mysql_connect flaky_counts = Done () \<and> c_sr_connect flaky_counts = Done ()
   \<and> ''products'' \<in> set TABLES
   \<and> Execute MySQL (CountAll ''products'')
        \<in> set (snd (count_tables flaky_counts MonitorState_init TABLES))
   \<and> network_under_lock False (snd (get_table_counts flaky_counts MonitorState_init))
   \<and> \<not> network_under_lock False
        (snd (snd (snd (latency_probe_thread MonitorState_init 1000 TABLES [calm_iteration]))
              ! 0))"
proof -
  have c: "c_mysql_connect flaky_counts = Done ()" "c_sr_connect flaky_counts = Done ()"
    by (simp_all add: flaky_counts_def)
  have p: "''products'' \<in> set TABLES" by (simp add: TABLES_def)
  have h1: "TABLES \<noteq> []" by (simp add: TABLES_def)
  have h2: "set TABLES \<subseteq> dom (tables MonitorState_init)" using tables_init by auto
  have h3: "running MonitorState_init" by (simp add: MonitorState_init_def)
  have len: "length (snd (snd (probe_loop MonitorState_init 1000 TABLES [calm_iteration] 0))) = 1"
    using probe_loop_runs [OF h1 h2 h3, of "[calm_iteration]" 1000 0]
    by (simp add: calm_iteration_def)
  have mem: "snd (snd (latency_probe_thread MonitorState_init 1000 TABLES [calm_iteration])) ! 0
      \<in> set (snd (snd (latency_probe_thread MonitorState_init 1000 TABLES [calm_iteration])))"
    unfolding latency_probe_thread_def using len by (intro nth_mem) simp
  show ?thesis
    using lock_scope [where s = MonitorState_init and interval = 1000 and tabs = TABLES
        and ws = "[calm_iteration]" and env = flaky_counts] c p mem
    by blast
qed

text \<open>
  Claim C10 as stated fails for the reconciliation task: all the count queries of a
  pass are executed between \<open>LockAcquire\<close> and \<open>LockRelease\<close>.
\<close>

theorem count_queries_run_under_lock:
  "snd (get_table_counts flaky_counts MonitorState_init) =
     [Connect MySQL, Connect StarRocks, LockAcquire,
      Execute MySQL (CountAll ''orders''),
      Execute MySQL (CountAll ''customers''), Execute StarRocks (CountAll ''customers''),
      Execute MySQL (CountAll ''products''), Execute StarRocks (CountAll ''products''),
      Execute MySQL (CountAll ''order_items''), Execute StarRocks (CountAll ''order_items''),
      Execute MySQL (CountAll ''inventory_movements''),
      Execute StarRocks (CountAll ''inventory_movements''),
      LockRelease, Close MySQL, Close StarRocks]
   \<and> network_under_lock False (snd (get_table_counts flaky_counts MonitorState_init))"
proof -
  have c: "c_mysql_connect flaky_counts = Done ()" "c_sr_connect flaky_counts = Done ()"
    by (simp_all add: flaky_counts_def)
  have q: "mysql_count_query flaky_counts ''orders'' = Failed ''gone away''"
    "mysql_count_query flaky_counts ''customers'' = Done 1000"
    "mysql_count_query flaky_counts ''products'' = Done 1000"
    "mysql_count_query flaky_counts ''order_items'' = Done 1000"
    "mysql_count_query flaky_counts ''inventory_movements'' = Done 1000"
    "sr_count_query flaky_counts ''customers'' = Failed ''gone away''"
    "sr_count_query flaky_counts ''products'' = Done 980"
    "sr_count_query flaky_counts ''order_items'' = Done 980"
    "sr_count_query flaky_counts ''inventory_movements'' = Done 980"
    by (simp_all add: flaky_counts_def)
  have calls: "snd (count_tables flaky_counts MonitorState_init TABLES) =
     [Execute MySQL (CountAll ''orders''),
      Execute MySQL (CountAll ''customers''), Execute StarRocks (CountAll ''customers''),
      Execute MySQL (CountAll ''products''), Execute StarRocks (CountAll ''products''),
      Execute MySQL (CountAll ''order_items''), Execute StarRocks (CountAll ''order_items''),
      Execute MySQL (CountAll ''inventory_movements''),
      Execute StarRocks (CountAll ''inventory_movements'')]"
    by (simp add: TABLES_def count_table_def q MonitorState_init_def Let_def)
  show ?thesis
    using get_table_counts_lock [OF c, of MonitorState_init]
    by (simp add: get_table_counts_connected [OF c] calls)
qed

end
